theory Spec2Isabelle
  imports Complex_Main "HOL-Library.Log_Nat" "HOL-Library.AList"
begin

section \<open>JavaScript numbers\<close>

text \<open>
  The bet manager of \<^verbatim>\<open>src/modules/bets.js\<close> computes payouts with JavaScript
  numbers, which are IEEE 754 binary64 values. A number is modelled as a finite rational,
  \<open>NaN\<close> or one of the two infinities. Stakes are integers read from the store; the model
  covers stakes that stay, together with their sums, in the safe-integer range (absolute
  value below \<open>2^53\<close>), where the conversion of an integer to a number, the negation
  of a stake and the sums of stakes (\<open>pool\<close> and \<open>winningBets\<close>) are exact; beyond
  that range the sums of the code are rounded and the integer sums of the model are not. Division and multiplication round their exact result to the nearest binary64
  value, ties to even (\<open>to_double\<close>); on quotients and products of safe integers the
  exponent range of binary64 is never left, so neither overflow nor subnormal values arise.
  A zero stands for \<open>+0\<close>: the only divisor of the program is a sum that starts from
  \<open>+0\<close> and adds integers, so \<open>-0\<close> never divides.
\<close>

datatype number = Fin rat | NaN | PosInf | NegInf

definition pow2 :: "int \<Rightarrow> rat" where
  "pow2 e = (if 0 \<le> e then 2 ^ nat e else 1 / 2 ^ nat (- e))"

text \<open>Round a rational to the nearest integer, a tie to the even neighbour.\<close>

definition round_half_even :: "rat \<Rightarrow> int" where
  "round_half_even m =
     (let f = \<lfloor>m\<rfloor>; r = m - of_int f
      in if r < 1 / 2 then f
         else if 1 / 2 < r then f + 1
         else if even f then f else f + 1)"

text \<open>
  The exponent \<open>e\<close> of the unit in the last place of a positive rational \<open>q\<close>:
  the one with \<open>2^52 \<le> q / 2^e < 2^53\<close>, found from the bit lengths of numerator and
  denominator.
\<close>

definition ulp_exponent :: "rat \<Rightarrow> int" where
  "ulp_exponent q =
     (let (n, d) = quotient_of q;
          e0 = bitlen n - bitlen d - 53
      in if q / pow2 e0 < 2 ^ 53 then e0 else e0 + 1)"

definition to_double :: "rat \<Rightarrow> rat" where
  "to_double q =
     (if q = 0 then 0
      else let a = \<bar>q\<bar>; e = ulp_exponent a;
               m = of_int (round_half_even (a / pow2 e)) * pow2 e
           in if q < 0 then - m else m)"

text \<open>\<^verbatim>\<open>x / y\<close> on numbers.\<close>

fun js_div :: "number \<Rightarrow> number \<Rightarrow> number" where
  "js_div NaN _ = NaN"
| "js_div _ NaN = NaN"
| "js_div (Fin x) (Fin y) =
     (if y = 0 then (if x = 0 then NaN else if 0 < x then PosInf else NegInf)
      else Fin (to_double (x / y)))"
| "js_div (Fin x) _ = Fin 0"
| "js_div PosInf (Fin y) = (if 0 \<le> y then PosInf else NegInf)"
| "js_div NegInf (Fin y) = (if 0 \<le> y then NegInf else PosInf)"
| "js_div _ _ = NaN"

text \<open>\<^verbatim>\<open>x * y\<close> on numbers.\<close>

fun js_mul :: "number \<Rightarrow> number \<Rightarrow> number" where
  "js_mul NaN _ = NaN"
| "js_mul _ NaN = NaN"
| "js_mul (Fin x) (Fin y) = Fin (to_double (x * y))"
| "js_mul (Fin x) PosInf = (if x = 0 then NaN else if 0 < x then PosInf else NegInf)"
| "js_mul (Fin x) NegInf = (if x = 0 then NaN else if 0 < x then NegInf else PosInf)"
| "js_mul PosInf (Fin y) = (if y = 0 then NaN else if 0 < y then PosInf else NegInf)"
| "js_mul NegInf (Fin y) = (if y = 0 then NaN else if 0 < y then NegInf else PosInf)"
| "js_mul PosInf PosInf = PosInf"
| "js_mul NegInf NegInf = PosInf"
| "js_mul _ _ = NegInf"

text \<open>\<^verbatim>\<open>Math.ceil(x)\<close>.\<close>

fun js_ceil :: "number \<Rightarrow> number" where
  "js_ceil (Fin x) = Fin (of_int \<lceil>x\<rceil>)"
| "js_ceil x = x"

text \<open>\<^verbatim>\<open>-x\<close>.\<close>

fun js_neg :: "number \<Rightarrow> number" where
  "js_neg (Fin x) = Fin (- x)"
| "js_neg NaN = NaN"
| "js_neg PosInf = NegInf"
| "js_neg NegInf = PosInf"

text \<open>An integer of the store as a number (exact in the safe-integer range).\<close>

definition num :: "int \<Rightarrow> number" where
  "num i = Fin (of_int i)"


section \<open>Strings\<close>

text \<open>
  A JavaScript string is a sequence of UTF-16 code units; the model covers the code units
  below 256, one \<^typ>\<open>char\<close> each. \<open>is_space\<close> is the class \<^verbatim>\<open>\s\<close> of regular
  expressions, which is also what \<^verbatim>\<open>trim\<close> strips; \<open>is_line_terminator\<close> is what
  \<^verbatim>\<open>.\<close> does not match; \<open>is_az\<close> is \<^verbatim>\<open>[a-z]\<close>.
\<close>

definition is_az :: "char \<Rightarrow> bool" where
  "is_az c = (let n = (of_char c :: nat) in 97 \<le> n \<and> n \<le> 122)"

definition is_space :: "char \<Rightarrow> bool" where
  "is_space c = (let n = (of_char c :: nat) in (9 \<le> n \<and> n \<le> 13) \<or> n = 32 \<or> n = 160)"

definition is_line_terminator :: "char \<Rightarrow> bool" where
  "is_line_terminator c = (let n = (of_char c :: nat) in n = 10 \<or> n = 13)"

definition char_to_lower :: "char \<Rightarrow> char" where
  "char_to_lower c =
     (let n = (of_char c :: nat)
      in if 65 \<le> n \<and> n \<le> 90 then char_of (n + 32)
         else if 192 \<le> n \<and> n \<le> 222 \<and> n \<noteq> 215 then char_of (n + 32)
         else c)"

definition toLowerCase :: "string \<Rightarrow> string" where
  "toLowerCase s = map char_to_lower s"

definition trim :: "string \<Rightarrow> string" where
  "trim s = rev (dropWhile is_space (rev (dropWhile is_space s)))"

section \<open>The option-string parser\<close>

text \<open>
  \<^verbatim>\<open>parse\<close> runs the regular expression
  \<^verbatim>\<open>/([a-z]+)\)(.*?)(?:\s[a-z]+\)|$)/g\<close> in a loop. The matcher below follows the
  backtracking order of the expression: the greedy \<^verbatim>\<open>[a-z]+\<close> tries the longest run
  of letters first and then shorter ones, the lazy \<^verbatim>\<open>(.*?)\<close> tries the shortest
  description first and grows it by one character that is not a line terminator, and the
  final group tries its first alternative before \<^verbatim>\<open>$\<close>.
\<close>

fun first_some :: "('a \<Rightarrow> 'b option) \<Rightarrow> 'a list \<Rightarrow> 'b option" where
  "first_some f [] = None"
| "first_some f (x # xs) = (case f x of Some y \<Rightarrow> Some y | None \<Rightarrow> first_some f xs)"

definition nth_is :: "string \<Rightarrow> nat \<Rightarrow> char \<Rightarrow> bool" where
  "nth_is s k c = (k < length s \<and> s ! k = c)"

text \<open>The lengths the greedy \<^verbatim>\<open>[a-z]+\<close> tries at the head of \<open>s\<close>, longest first.\<close>

definition greedy_lengths :: "string \<Rightarrow> nat list" where
  "greedy_lengths s = rev [1..<Suc (length (takeWhile is_az s))]"

text \<open>
  \<^verbatim>\<open>(?:\s[a-z]+\)|$)\<close> at the head of \<open>r\<close>: the number of characters it consumes.
\<close>

definition tail_match :: "string \<Rightarrow> nat option" where
  "tail_match r =
     (case r of
        [] \<Rightarrow> Some 0
      | c # cs \<Rightarrow>
          if is_space c
          then first_some (\<lambda>k. if nth_is cs k (CHR '')'') then Some (k + 2) else None)
                 (greedy_lengths cs)
          else None)"

text \<open>
  \<^verbatim>\<open>(.*?)\<close> followed by the final group: the description matched so far is \<open>acc\<close>
  (reversed); the result is the description and the length of the final group.
\<close>

fun lazy_desc :: "string \<Rightarrow> string \<Rightarrow> (string \<times> nat) option" where
  "lazy_desc acc [] = (case tail_match [] of Some n \<Rightarrow> Some (rev acc, n) | None \<Rightarrow> None)"
| "lazy_desc acc (c # cs) =
     (case tail_match (c # cs) of
        Some n \<Rightarrow> Some (rev acc, n)
      | None \<Rightarrow> if is_line_terminator c then None else lazy_desc (c # acc) cs)"

text \<open>
  A match of the whole expression at the head of \<open>s\<close>: the key \<^verbatim>\<open>match[1]\<close>, the
  description \<^verbatim>\<open>match[2]\<close> and the length of the match.
\<close>

definition match_at :: "string \<Rightarrow> (string \<times> string \<times> nat) option" where
  "match_at s =
     first_some
       (\<lambda>k. if nth_is s k (CHR '')'')
            then (case lazy_desc [] (drop (Suc k) s) of
                    Some (d, n) \<Rightarrow> Some (take k s, d, k + 1 + length d + n)
                  | None \<Rightarrow> None)
            else None)
       (greedy_lengths s)"

text \<open>
  \<^verbatim>\<open>rx.exec(str)\<close> with the global flag: the search starts at \<^verbatim>\<open>lastIndex\<close>
  (a negative value counts as 0), takes the leftmost position with a match and returns
  \<^verbatim>\<open>match[1]\<close>, \<^verbatim>\<open>match[2]\<close> and the new \<^verbatim>\<open>lastIndex\<close>, the end of the
  match; \<open>None\<close> is \<^verbatim>\<open>null\<close>.
\<close>

definition exec :: "string \<Rightarrow> int \<Rightarrow> (string \<times> string \<times> int) option" where
  "exec str lastIndex =
     (let li = nat (max 0 lastIndex)
      in if length str < li then None
         else first_some
                (\<lambda>i. case match_at (drop i str) of
                       Some (k, d, len) \<Rightarrow> Some (k, d, int (i + len))
                     | None \<Rightarrow> None)
                [li..<Suc (length str)])"

text \<open>
  The \<^verbatim>\<open>while\<close> loop of \<^verbatim>\<open>parse\<close>. The options object is an association list in
  insertion order; assigning to a key that is present keeps its place. The loop need not
  terminate, so the result is an option: \<open>None\<close> when it runs forever.
\<close>

partial_function (option) parse_loop ::
  "string \<Rightarrow> int \<Rightarrow> (string \<times> string) list \<Rightarrow> (string \<times> string) list option" where
  "parse_loop str lastIndex options =
     (case exec str lastIndex of
        None \<Rightarrow> Some options
      | Some (k, d, e) \<Rightarrow>
          parse_loop str (e - (int (length k) + 2))
            (AList.update (toLowerCase k) (trim d) options))"

declare parse_loop.simps [code]

definition parse :: "string \<Rightarrow> (string \<times> string) list option" where
  "parse str = parse_loop str 0 []"


section \<open>The store and the ledger\<close>

text \<open>
  The store holds three relations. Rows are kept in insertion order, and each relation has
  its own generator of row identifiers. The ledger (\<^verbatim>\<open>bot.florins\<close>) and the query
  builder (\<^verbatim>\<open>db\<close>) are collaborators outside the sources: a call to the ledger is
  recorded, in order, in the \<open>ledger\<close> field, and a round trip to either is taken to
  succeed, with one exception: query builders differ on an insert of an empty batch of
  rows, so whether the store rejects it is the field \<open>empty_insert_fails\<close>.
\<close>

datatype status = Open | Closed | Ended

record bet =
  bet_id :: nat
  status :: status

record betOption =
  opt_id :: nat
  opt_betId :: nat
  name :: string
  description :: string

record betEntry =
  entry_id :: nat
  betId :: nat
  optionId :: nat
  user :: string
  amount :: int

record transaction =
  username :: string
  tx_amount :: number
  tx_description :: string

datatype ledger_call =
    Unreserve string string
  | Reserve string string int
  | Transactions "transaction list"
  | ClearReservations string

record state =
  bets :: "bet list"
  betOptions :: "betOption list"
  betEntries :: "betEntry list"
  next_bet_id :: nat
  next_option_id :: nat
  next_entry_id :: nat
  empty_insert_fails :: bool
  ledger :: "ledger_call list"

text \<open>
  The errors of the module are \<^verbatim>\<open>Error\<close> objects told apart by their message:
  \<^item> \<open>BetNotOpen st\<close>: \<^verbatim>\<open>The current bet has been <st>.\<close> (InvalidState);
  \<^item> \<open>OptionDoesNotExist k\<close>: \<^verbatim>\<open>Betting option "<k>" does not exist.\<close> (UnknownOption);
  \<^item> \<open>NegativeBet\<close>: \<^verbatim>\<open>You can't place a negative bet.\<close> (InvalidAmount);
  \<^item> \<open>NoBetsOpen\<close>: \<^verbatim>\<open>No bets are open right now.\<close> (InvalidState);
  \<^item> \<open>FlorinsMissing\<close>: \<^verbatim>\<open>Bets require the florins module, ...\<close> (ConfigError);
  \<^item> \<open>AnotherBetOpen\<close>: \<^verbatim>\<open>Another bet is already open.\<close>;
  \<^item> \<open>TypeError\<close>: a property read on \<^verbatim>\<open>undefined\<close>;
  \<^item> \<open>StoreError\<close>: the store rejected a statement.
\<close>

datatype error =
    BetNotOpen status
  | OptionDoesNotExist string
  | NegativeBet
  | NoBetsOpen
  | FlorinsMissing
  | AnotherBetOpen
  | TypeError
  | StoreError

section \<open>The bet manager\<close>

text \<open>
  A row of \<^verbatim>\<open>getBetEntries\<close>: an entry left-joined with the option it names; the
  option name is \<open>None\<close> (\<^verbatim>\<open>null\<close>) when no option row has that identifier.
\<close>

record entryRow =
  row_user :: string
  row_amount :: int
  row_optionId :: nat
  row_option :: "string option"

definition join_row :: "betEntry \<Rightarrow> string option \<Rightarrow> entryRow" where
  "join_row e n = \<lparr>row_user = user e, row_amount = amount e, row_optionId = optionId e,
                   row_option = n\<rparr>"

definition getBetEntries :: "nat \<Rightarrow> state \<Rightarrow> entryRow list" where
  "getBetEntries b s =
     concat (map (\<lambda>e. let os = filter (\<lambda>opt. opt_id opt = optionId e) (betOptions s)
                       in if os = [] then [join_row e None]
                          else map (\<lambda>opt. join_row e (Some (name opt))) os)
                 (filter (\<lambda>e. betId e = b) (betEntries s)))"

definition getBetOption :: "nat \<Rightarrow> string \<Rightarrow> state \<Rightarrow> betOption option" where
  "getBetOption b optionName s =
     find (\<lambda>opt. opt_betId opt = b \<and> name opt = toLowerCase optionName) (betOptions s)"

definition valid :: "nat \<Rightarrow> string \<Rightarrow> state \<Rightarrow> bool" where
  "valid b optionName s = (getBetOption b optionName s \<noteq> None)"

definition getStatus :: "nat \<Rightarrow> state \<Rightarrow> error + status" where
  "getStatus b s =
     (case find (\<lambda>x. bet_id x = b) (bets s) of
        None \<Rightarrow> Inl TypeError
      | Some x \<Rightarrow> Inr (status x))"

definition set_status :: "nat \<Rightarrow> status \<Rightarrow> state \<Rightarrow> state" where
  "set_status b st s =
     s\<lparr>bets := map (\<lambda>x. if bet_id x = b then x\<lparr>status := st\<rparr> else x) (bets s)\<rparr>"

text \<open>
  An SQL \<^verbatim>\<open>sum\<close> over rows: \<^verbatim>\<open>null\<close> (\<open>None\<close>) over no rows.
\<close>

definition sum_amount :: "betEntry list \<Rightarrow> int option" where
  "sum_amount es = (if es = [] then None else Some (sum_list (map amount es)))"

definition pool :: "nat \<Rightarrow> state \<Rightarrow> int option" where
  "pool b s = sum_amount (filter (\<lambda>e. betId e = b) (betEntries s))"

definition close :: "nat \<Rightarrow> state \<Rightarrow> state" where
  "close b s = set_status b Closed s"

definition closed :: "nat \<Rightarrow> state \<Rightarrow> error + bool" where
  "closed b s = (case getStatus b s of Inl e \<Rightarrow> Inl e | Inr st \<Rightarrow> Inr (st = Closed))"

definition call_ledger :: "ledger_call \<Rightarrow> state \<Rightarrow> state" where
  "call_ledger c s = s\<lparr>ledger := ledger s @ [c]\<rparr>"

definition delete_entries :: "nat \<Rightarrow> string \<Rightarrow> state \<Rightarrow> state" where
  "delete_entries b usr s =
     s\<lparr>betEntries := filter (\<lambda>e. \<not> (betId e = b \<and> user e = toLowerCase usr)) (betEntries s)\<rparr>"

definition insert_entry :: "nat \<Rightarrow> nat \<Rightarrow> string \<Rightarrow> int \<Rightarrow> state \<Rightarrow> nat \<times> state" where
  "insert_entry b oid usr florins s =
     (next_entry_id s,
      s\<lparr>betEntries := betEntries s @
           [\<lparr>entry_id = next_entry_id s, betId = b, optionId = oid, user = usr,
             amount = florins\<rparr>],
        next_entry_id := Suc (next_entry_id s)\<rparr>)"

text \<open>
  \<^verbatim>\<open>enter(user, optionName, florins)\<close>. The result is the row read back by the
  identifier of the insert.
\<close>

definition enter ::
  "nat \<Rightarrow> string \<Rightarrow> string \<Rightarrow> int \<Rightarrow> state \<Rightarrow> (error + betEntry option) \<times> state" where
  "enter b usr optionName florins s =
     (case getStatus b s of
        Inl e \<Rightarrow> (Inl e, s)
      | Inr st \<Rightarrow>
          if st \<noteq> Open then (Inl (BetNotOpen st), s)
          else (case getBetOption b optionName s of
                  None \<Rightarrow> (Inl (OptionDoesNotExist optionName), s)
                | Some opt \<Rightarrow>
                    if florins < 0 then (Inl NegativeBet, s)
                    else let s1 = call_ledger (Unreserve usr ''bet'') s;
                             s2 = call_ledger (Reserve usr ''bet'' florins) s1;
                             s3 = delete_entries b usr s2;
                             (inserted, s4) =
                               insert_entry b (opt_id opt) (toLowerCase usr) florins s3
                         in (Inr (find (\<lambda>e. entry_id e = inserted) (betEntries s4)), s4)))"

text \<open>
  The payout of a winning entry:
  \<^verbatim>\<open>Math.ceil(entry.amount / winningBets * total)\<close>, where \<^verbatim>\<open>total\<close>
  (here \<open>pool_total\<close>) is the result
  of \<^verbatim>\<open>pool()\<close>; \<^verbatim>\<open>null\<close> counts as 0 in a product.
\<close>

definition payout :: "int \<Rightarrow> int \<Rightarrow> int option \<Rightarrow> number" where
  "payout a winningBets pool_total =
     js_ceil (js_mul (js_div (num a) (num winningBets))
                     (case pool_total of None \<Rightarrow> Fin 0 | Some t \<Rightarrow> num t))"

definition option_text :: "string option \<Rightarrow> string" where
  "option_text n = (case n of None \<Rightarrow> ''null'' | Some x \<Rightarrow> x)"

definition debit :: "entryRow \<Rightarrow> transaction" where
  "debit r = \<lparr>username = row_user r, tx_amount = js_neg (num (row_amount r)),
              tx_description = ''bet on option '' @ option_text (row_option r)\<rparr>"

definition credit :: "betOption \<Rightarrow> string \<times> number \<Rightarrow> transaction" where
  "credit winningOption p =
     \<lparr>username = fst p, tx_amount = snd p,
      tx_description = ''bet payout from option '' @ name winningOption\<rparr>"

text \<open>\<^verbatim>\<open>end(optionName)\<close>; the result is the list of winning entries.\<close>

definition end_bet :: "nat \<Rightarrow> string \<Rightarrow> state \<Rightarrow> (error + betEntry list) \<times> state" where
  "end_bet b optionName s =
     (case getBetOption b optionName s of
        None \<Rightarrow> (Inl (OptionDoesNotExist optionName), s)
      | Some winningOption \<Rightarrow>
          let s1 = set_status b Ended s;
              allEntries = getBetEntries b s1;
              winners = filter (\<lambda>e. betId e = b \<and> optionId e = opt_id winningOption)
                          (betEntries s1);
              winningBets = foldl (+) 0 (map amount winners);
              pool_total = pool b s1;
              payouts = map (\<lambda>e. (user e, payout (amount e) winningBets pool_total))
                          winners;
              s2 = call_ledger (Transactions (map debit allEntries)) s1;
              s3 = call_ledger (Transactions (map (credit winningOption) payouts)) s2;
              s4 = call_ledger (ClearReservations ''bet'') s3
          in (Inr winners, s4))"

text \<open>\<^verbatim>\<open>clear(user)\<close>.\<close>

definition clear :: "nat \<Rightarrow> string \<Rightarrow> state \<Rightarrow> (error + unit) \<times> state" where
  "clear b usr s =
     (case getStatus b s of
        Inl e \<Rightarrow> (Inl e, s)
      | Inr st \<Rightarrow>
          if st \<noteq> Open then (Inl NoBetsOpen, s)
          else (Inr (), delete_entries b usr s))"

definition getBetOptions :: "nat \<Rightarrow> state \<Rightarrow> betOption list" where
  "getBetOptions b s = filter (\<lambda>opt. opt_betId opt = b) (betOptions s)"

text \<open>\<^verbatim>\<open>x || 0\<close> on the result of a sum or on a stake.\<close>

definition or_zero :: "int option \<Rightarrow> int" where
  "or_zero x = (case x of None \<Rightarrow> 0 | Some t \<Rightarrow> if t = 0 then 0 else t)"

definition optionValue :: "nat \<Rightarrow> string \<Rightarrow> state \<Rightarrow> error + int" where
  "optionValue b optionName s =
     (case getBetOption b optionName s of
        None \<Rightarrow> Inl TypeError
      | Some opt \<Rightarrow>
          Inr (or_zero (sum_amount
                 (filter (\<lambda>e. betId e = b \<and> optionId e = opt_id opt) (betEntries s)))))"

definition entryValue :: "nat \<Rightarrow> string \<Rightarrow> state \<Rightarrow> error + int" where
  "entryValue b usr s =
     (case find (\<lambda>e. betId e = b \<and> user e = toLowerCase usr) (betEntries s) of
        None \<Rightarrow> Inl TypeError
      | Some v \<Rightarrow> Inr (or_zero (Some (amount v))))"

section \<open>Creating a bet\<close>

text \<open>
  The options object is an association list with distinct keys, in insertion order;
  \<^verbatim>\<open>createBet\<close> makes one row of each key and the description stored under it.
\<close>

fun insert_options :: "(nat \<times> string \<times> string) list \<Rightarrow> state \<Rightarrow> state" where
  "insert_options [] s = s"
| "insert_options ((b, n, d) # rows) s =
     insert_options rows
       (s\<lparr>betOptions := betOptions s @
            [\<lparr>opt_id = next_option_id s, opt_betId = b, name = n, description = d\<rparr>],
          next_option_id := Suc (next_option_id s)\<rparr>)"

definition createBet :: "(string \<times> string) list \<Rightarrow> state \<Rightarrow> (error + nat) \<times> state" where
  "createBet options s =
     (let b = next_bet_id s;
          s1 = s\<lparr>bets := bets s @ [\<lparr>bet_id = b, status = Open\<rparr>],
                 next_bet_id := Suc b\<rparr>;
          optionRows = map (\<lambda>(n, d). (b, n, d)) options
      in if optionRows = [] \<and> empty_insert_fails s1 then (Inl StoreError, s1)
         else (Inr b, insert_options optionRows s1))"

text \<open>
  The \<^verbatim>\<open>!bet open\<close> command up to the creation of the bet (the messages sent afterwards
  do not touch the store). \<open>bot_florins\<close> tells whether the ledger module is loaded,
  \<open>bot_bet\<close> is the bet of the current manager. The result is \<open>None\<close> when the parser
  does not return.
\<close>

record bot =
  bot_florins :: bool
  bot_bet :: "nat option"

definition bet_open :: "bot \<Rightarrow> string \<Rightarrow> state \<Rightarrow> ((error + unit) \<times> bot \<times> state) option" where
  "bet_open bt trailing s =
     (if \<not> bot_florins bt then Some (Inl FlorinsMissing, bt, s)
      else if bot_bet bt \<noteq> None then Some (Inl AnotherBetOpen, bt, s)
      else (case parse trailing of
              None \<Rightarrow> None
            | Some options \<Rightarrow>
                (case createBet options s of
                   (Inl e, s') \<Rightarrow> Some (Inl e, bt, s')
                 | (Inr b, s') \<Rightarrow> Some (Inr (), bt\<lparr>bot_bet := Some b\<rparr>, s'))))"


section \<open>Observations and sample stores\<close>

text \<open>
  What an operation adds to the record of ledger calls, the transaction batches among a
  list of calls, and the exact sum of a list of numbers (\<open>None\<close> when one of them is not
  finite).
\<close>

definition issued :: "state \<Rightarrow> state \<Rightarrow> ledger_call list" where
  "issued s s' = drop (length (ledger s)) (ledger s')"

definition batches :: "ledger_call list \<Rightarrow> transaction list list" where
  "batches cs = concat (map (\<lambda>c. case c of Transactions ts \<Rightarrow> [ts] | _ \<Rightarrow> []) cs)"

fun fin_sum :: "number list \<Rightarrow> rat option" where
  "fin_sum [] = Some 0"
| "fin_sum (Fin x # xs) = (case fin_sum xs of Some y \<Rightarrow> Some (x + y) | None \<Rightarrow> None)"
| "fin_sum (_ # xs) = None"

text \<open>
  An empty store, a bet with the options \<^verbatim>\<open>{a: "Cats", b: "Dogs"}\<close> created in it, and
  a run of \<^verbatim>\<open>enter\<close> calls.
\<close>

definition store0 :: state where
  "store0 = \<lparr>bets = [], betOptions = [], betEntries = [], next_bet_id = 1,
             next_option_id = 1, next_entry_id = 1, empty_insert_fails = False,
             ledger = []\<rparr>"

definition cats_dogs :: state where
  "cats_dogs = snd (createBet [(''a'', ''Cats''), (''b'', ''Dogs'')] store0)"

fun enter_all :: "nat \<Rightarrow> (string \<times> string \<times> int) list \<Rightarrow> state \<Rightarrow> state" where
  "enter_all b [] s = s"
| "enter_all b ((usr, k, n) # es) s = enter_all b es (snd (enter b usr k n s))"

definition alice_bob_carol :: state where
  "alice_bob_carol =
     enter_all 1 [(''alice'', ''a'', 100), (''bob'', ''b'', 200), (''carol'', ''a'', 50)]
       cats_dogs"

definition three_winners :: state where
  "three_winners =
     enter_all 1 [(''ann'', ''a'', 3), (''ben'', ''a'', 6), (''cor'', ''a'', 25),
                  (''dan'', ''b'', 136)] cats_dogs"

definition seven_of_hundred :: state where
  "seven_of_hundred = enter_all 1 [(''alice'', ''a'', 7), (''bob'', ''a'', 93)] cats_dogs"

definition zero_stake :: state where
  "zero_stake = enter_all 1 [(''zed'', ''a'', 0), (''bob'', ''b'', 5)] cats_dogs"

definition ended_bet :: state where
  "ended_bet = snd (end_bet 1 ''a'' alice_bob_carol)"

definition alice_twice :: state where
  "alice_twice = snd (enter 1 ''alice'' ''a'' 10 cats_dogs)"

text \<open>The empty store with a query builder that rejects an empty insert.\<close>

definition store_rejecting :: state where
  "store_rejecting = store0\<lparr>empty_insert_fails := True\<rparr>"

section \<open>Rounding to binary64\<close>

text \<open>
  \<open>to_double\<close> is rounding to nearest with 53 significant bits: for a positive \<open>q\<close>
  the exponent \<open>e\<close> it picks puts \<open>q / 2^e\<close> between \<open>2^52\<close> and \<open>2^53\<close>, the
  result is a multiple \<open>m * 2^e\<close> with \<open>m\<close> between \<open>2^52\<close> and \<open>2^53\<close>, it lies
  within half a unit \<open>2^e\<close> of \<open>q\<close>, and on a tie \<open>m\<close> is even. Integers below
  \<open>2^53\<close> in absolute value are not changed.
\<close>

lemma pow2_powi: "pow2 e = 2 powi e"
  by (simp add: pow2_def power_int_def field_simps power_inverse)

lemma pow2_pos [simp]: "0 < pow2 e"
  by (simp add: pow2_powi)

lemma pow2_neq0 [simp]: "pow2 e \<noteq> 0"
  by (metis pow2_pos less_irrefl)

lemma pow2_add: "pow2 (a + b) = pow2 a * pow2 b"
  by (simp add: pow2_powi power_int_add)

lemma pow2_Suc: "pow2 (e + 1) = 2 * pow2 e"
  by (simp add: pow2_add) (simp add: pow2_def)

lemma pow2_nat: "pow2 (int n) = 2 ^ n"
  by (simp add: pow2_def)

lemma round_half_even_int [simp]: "round_half_even (of_int k) = k"
  by (simp add: round_half_even_def)

lemma round_half_even_error: "\<bar>of_int (round_half_even m) - m\<bar> \<le> 1 / 2"
proof -
  have "of_int \<lfloor>m\<rfloor> \<le> m" "m < of_int \<lfloor>m\<rfloor> + 1" by linarith+
  then show ?thesis
    by (auto simp: round_half_even_def Let_def)
qed

lemma round_half_even_tie:
  assumes "\<bar>of_int (round_half_even m) - m\<bar> = 1 / 2"
  shows "even (round_half_even m)"
proof -
  have "of_int \<lfloor>m\<rfloor> \<le> m" "m < of_int \<lfloor>m\<rfloor> + 1" by linarith+
  with assms show ?thesis
    by (auto simp: round_half_even_def Let_def split: if_splits)
qed

lemma round_half_even_mono:
  assumes "of_int lo \<le> m" and "m \<le> of_int hi"
  shows "lo \<le> round_half_even m \<and> round_half_even m \<le> hi"
proof -
  have f: "lo \<le> \<lfloor>m\<rfloor>" using assms(1) by (simp add: le_floor_iff)
  have "\<lfloor>m\<rfloor> \<le> hi" using assms(2) by (simp add: floor_le_iff)
  moreover have "\<lfloor>m\<rfloor> + 1 \<le> hi" if "m \<noteq> of_int \<lfloor>m\<rfloor>"
  proof -
    have "\<lfloor>m\<rfloor> < hi"
    proof (rule ccontr)
      assume "\<not> \<lfloor>m\<rfloor> < hi"
      with \<open>\<lfloor>m\<rfloor> \<le> hi\<close> have "\<lfloor>m\<rfloor> = hi" by simp
      then have "of_int hi \<le> m" by (metis of_int_floor_le)
      with assms(2) have "m = of_int hi" by simp
      with \<open>\<lfloor>m\<rfloor> = hi\<close> that show False by simp
    qed
    then show ?thesis by simp
  qed
  ultimately show ?thesis using f
    by (auto simp: round_half_even_def Let_def)
qed

lemma quotient_of_pos:
  assumes "0 < q" and "quotient_of q = (n, d)"
  shows "0 < n" and "0 < d" and "q = of_int n / of_int d"
proof -
  show d: "0 < d" using assms(2) by (rule quotient_of_denom_pos)
  show q: "q = of_int n / of_int d" using assms(2) by (rule quotient_of_div)
  from assms(1) d q show "0 < n" by (simp add: zero_less_divide_iff)
qed

lemma bitlen_pow2_bounds:
  assumes "0 < (x :: int)"
  shows "pow2 (bitlen x - 1) \<le> of_int x" and "of_int x < pow2 (bitlen x)"
proof -
  from assms have b: "1 \<le> bitlen x" by (auto simp: bitlen_alt_def)
  from bitlen_bounds [OF assms]
  have "(2 :: int) ^ nat (bitlen x - 1) \<le> x" "x < 2 ^ nat (bitlen x)" by simp_all
  then have "(of_int (2 ^ nat (bitlen x - 1)) :: rat) \<le> of_int x"
    "(of_int x :: rat) < of_int (2 ^ nat (bitlen x))"
    by (simp_all only: of_int_le_iff of_int_less_iff)
  with b show "pow2 (bitlen x - 1) \<le> of_int x" and "of_int x < pow2 (bitlen x)"
    by (simp_all add: pow2_def)
qed

lemma pow2_diff: "pow2 (a - b) = pow2 a / pow2 b"
  by (simp add: pow2_powi power_int_diff)

lemma ulp_exponent_bounds:
  assumes "0 < q"
  shows "2 ^ 52 \<le> q / pow2 (ulp_exponent q)" and "q / pow2 (ulp_exponent q) < 2 ^ 53"
proof -
  obtain n d where nd: "quotient_of q = (n, d)" by (cases "quotient_of q")
  note p = quotient_of_pos [OF assms nd]
  define e0 where "e0 = bitlen n - bitlen d - 53"
  have e: "ulp_exponent q = (if q / pow2 e0 < 2 ^ 53 then e0 else e0 + 1)"
    by (simp add: ulp_exponent_def nd e0_def Let_def)
  have n1: "pow2 (bitlen n - 1) \<le> of_int n" and n2: "of_int n < pow2 (bitlen n)"
    using bitlen_pow2_bounds [OF p(1)] by simp_all
  have d1: "pow2 (bitlen d - 1) \<le> of_int d" and d2: "of_int d < pow2 (bitlen d)"
    using bitlen_pow2_bounds [OF p(2)] by simp_all
  have dpos: "(0 :: rat) < of_int d" using p(2) by simp
  have lo: "pow2 (bitlen n - 1) / pow2 (bitlen d) < q"
  proof -
    have "pow2 (bitlen n - 1) / pow2 (bitlen d) \<le> of_int n / pow2 (bitlen d)"
      using n1 by (rule divide_right_mono) (simp add: less_imp_le)
    also have "\<dots> < of_int n / of_int d"
      using d2 by (rule divide_strict_left_mono) (use dpos p(1) in simp_all)
    finally show ?thesis by (simp add: p(3))
  qed
  have hi: "q < pow2 (bitlen n) / pow2 (bitlen d - 1)"
  proof -
    have "of_int n / of_int d < pow2 (bitlen n) / of_int d"
      using n2 dpos by (rule divide_strict_right_mono)
    also have "\<dots> \<le> pow2 (bitlen n) / pow2 (bitlen d - 1)"
      using d1 by (rule divide_left_mono) (use dpos in \<open>simp_all add: less_imp_le\<close>)
    finally show ?thesis by (simp add: p(3))
  qed
  have a: "pow2 (bitlen n - 1) / pow2 (bitlen d) = 2 ^ 52 * pow2 e0"
  proof -
    have "bitlen n - 1 - bitlen d = 52 + e0" by (simp add: e0_def)
    then have "pow2 (bitlen n - 1 - bitlen d) = pow2 52 * pow2 e0"
      by (simp only: pow2_add)
    then show ?thesis by (simp add: pow2_diff [symmetric]) (simp add: pow2_def)
  qed
  have b: "pow2 (bitlen n) / pow2 (bitlen d - 1) = 2 ^ 54 * pow2 e0"
  proof -
    have "bitlen n - (bitlen d - 1) = 54 + e0" by (simp add: e0_def)
    then have "pow2 (bitlen n - (bitlen d - 1)) = pow2 54 * pow2 e0"
      by (simp only: pow2_add)
    then show ?thesis by (simp add: pow2_diff [symmetric]) (simp add: pow2_def)
  qed
  from lo a have lo': "2 ^ 52 < q / pow2 e0" by (simp add: pos_less_divide_eq)
  from hi b have hi': "q / pow2 e0 < 2 ^ 54" by (simp add: pos_divide_less_eq)
  have half: "q / pow2 (e0 + 1) = (q / pow2 e0) / 2" by (simp add: pow2_Suc)
  show "2 ^ 52 \<le> q / pow2 (ulp_exponent q)"
    using lo' hi' by (auto simp: e half)
  show "q / pow2 (ulp_exponent q) < 2 ^ 53"
    using lo' hi' by (auto simp: e half)
qed

lemma to_double_pos_form:
  assumes "0 < q"
  shows "to_double q = of_int (round_half_even (q / pow2 (ulp_exponent q))) * pow2 (ulp_exponent q)"
  using assms by (simp add: to_double_def Let_def)

lemma to_double_neg: "to_double (- q) = - to_double q"
  by (cases "q = 0"; cases "0 < q") (auto simp: to_double_def Let_def)

lemma to_double_nearest_pos:
  assumes "0 < q"
  shows "\<exists>m. to_double q = of_int m * pow2 (ulp_exponent q) \<and> 2 ^ 52 \<le> m \<and> m \<le> 2 ^ 53 \<and>
             \<bar>to_double q - q\<bar> \<le> pow2 (ulp_exponent q) / 2 \<and>
             (\<bar>to_double q - q\<bar> = pow2 (ulp_exponent q) / 2 \<longrightarrow> even m)"
proof -
  define e where "e = ulp_exponent q"
  define x where "x = q / pow2 e"
  define m where "m = round_half_even x"
  have q: "q = x * pow2 e" by (simp add: x_def)
  have t: "to_double q = of_int m * pow2 e"
    unfolding m_def x_def e_def by (rule to_double_pos_form [OF assms])
  have b: "of_int (2 ^ 52) \<le> x" "x \<le> of_int (2 ^ 53)"
    using ulp_exponent_bounds [OF assms(1)] by (simp_all add: x_def e_def)
  then have r: "2 ^ 52 \<le> m \<and> m \<le> 2 ^ 53"
    unfolding m_def by (rule round_half_even_mono)
  have "of_int m * pow2 e - x * pow2 e = (of_int m - x) * pow2 e"
    by (simp add: algebra_simps)
  with t q have d: "to_double q - q = (of_int m - x) * pow2 e"
    by (simp only:)
  have ab: "\<bar>to_double q - q\<bar> = \<bar>of_int m - x\<bar> * pow2 e"
    by (simp add: d abs_mult abs_of_pos)
  have "\<bar>of_int m - x\<bar> \<le> 1 / 2" unfolding m_def by (rule round_half_even_error)
  then have "\<bar>of_int m - x\<bar> * pow2 e \<le> (1 / 2) * pow2 e"
    by (rule mult_right_mono) (simp add: less_imp_le)
  then have err: "\<bar>to_double q - q\<bar> \<le> pow2 e / 2" by (simp add: ab)
  have tie: "even m" if "\<bar>to_double q - q\<bar> = pow2 e / 2"
  proof -
    from that have "\<bar>of_int m - x\<bar> * pow2 e = (1 / 2) * pow2 e" by (simp add: ab)
    then have "\<bar>of_int m - x\<bar> = 1 / 2" by simp
    then show ?thesis unfolding m_def by (rule round_half_even_tie)
  qed
  from t r err tie show ?thesis unfolding e_def by blast
qed

lemma to_double_int:
  assumes "\<bar>i\<bar> < 2 ^ 53"
  shows "to_double (of_int i) = of_int i"
proof -
  have pos: "to_double (of_int a) = of_int a" if a: "0 < a" "a < 2 ^ 53" for a :: int
  proof -
    define e where "e = ulp_exponent (of_int a)"
    have q: "(0 :: rat) < of_int a" using a(1) by simp
    have lo: "2 ^ 52 \<le> (of_int a :: rat) / pow2 e"
      using ulp_exponent_bounds(1) [OF q] by (simp add: e_def)
    have "e \<le> 0"
    proof (rule ccontr)
      assume "\<not> e \<le> 0"
      then have "1 \<le> e" by simp
      then have "pow2 e = 2 * pow2 (e - 1)" using pow2_Suc [of "e - 1"] by simp
      moreover have "1 \<le> pow2 (e - 1)" using \<open>1 \<le> e\<close> by (simp add: pow2_def)
      ultimately have "2 \<le> pow2 e" by simp
      then have "(of_int a :: rat) / pow2 e \<le> of_int a / 2"
        by (rule divide_left_mono) (use q in simp_all)
      also have "\<dots> < 2 ^ 52"
      proof -
        have "(of_int a :: rat) < of_int (2 ^ 53)" using a(2) by (simp only: of_int_less_iff)
        then show ?thesis by simp
      qed
      finally show False using lo by simp
    qed
    then have p: "pow2 e = 1 / 2 ^ nat (- e)"
      by (cases "e = 0") (simp_all add: pow2_def)
    have "(of_int a :: rat) / pow2 e = of_int (a * 2 ^ nat (- e))"
      by (simp add: p)
    then have "round_half_even (of_int a / pow2 e) = a * 2 ^ nat (- e)"
      by (simp only: round_half_even_int)
    then have "to_double (of_int a) = of_int (a * 2 ^ nat (- e)) * pow2 e"
      using q by (simp add: to_double_pos_form e_def)
    then show ?thesis by (simp add: p)
  qed
  consider "i = 0" | "0 < i" | "i < 0" by linarith
  then show ?thesis
  proof cases
    case 1
    then show ?thesis by (simp add: to_double_def)
  next
    case 2
    with assms show ?thesis by (simp add: pos)
  next
    case 3
    with assms have "to_double (of_int (- i)) = of_int (- i)" by (intro pos) simp_all
    then show ?thesis by (simp add: to_double_neg)
  qed
qed

lemma to_double_tenth: "to_double (1 / 10) = 3602879701896397 / 36028797018963968"
  by code_simp

lemma payout_examples:
  "payout 7 100 (Some 100) = Fin 8" "payout 100 150 (Some 350) = Fin 234"
  "payout 0 0 (Some 5) = NaN" "payout 5 5 (Some 12) = Fin 12"
  by code_simp+

section \<open>Basic facts\<close>

lemma char_to_lower_idem: "char_to_lower (char_to_lower c) = char_to_lower c"
proof -
  have "of_char c < (256 :: nat)" by simp
  then show ?thesis
    by (auto simp: char_to_lower_def Let_def of_char_of)
qed

lemma toLowerCase_idem: "toLowerCase (toLowerCase k) = toLowerCase k"
  by (simp add: toLowerCase_def char_to_lower_idem)

lemma find_None_iff_all: "find P xs = None \<longleftrightarrow> (\<forall>x \<in> set xs. \<not> P x)"
  by (induction xs) auto

lemma first_some_None: "(\<And>x. x \<in> set xs \<Longrightarrow> f x = None) \<Longrightarrow> first_some f xs = None"
  by (induction xs) auto

text \<open>A key that matches no option of the bet, whatever the case, is not found.\<close>

lemma getBetOption_no_match:
  assumes "\<forall>opt \<in> set (betOptions s).
             opt_betId opt = b \<longrightarrow> toLowerCase (name opt) \<noteq> toLowerCase k"
  shows "getBetOption b k s = None"
proof -
  have "\<not> (opt_betId opt = b \<and> name opt = toLowerCase k)"
    if "opt \<in> set (betOptions s)" for opt
  proof
    assume h: "opt_betId opt = b \<and> name opt = toLowerCase k"
    then have "toLowerCase (name opt) = toLowerCase k" by (simp add: toLowerCase_idem)
    with assms that h show False by blast
  qed
  then show ?thesis by (simp add: getBetOption_def find_None_iff_all)
qed

text \<open>Setting the status touches the \<open>bets\<close> relation only.\<close>

lemma find_set_status:
  "find (\<lambda>x. bet_id x = b) (map (\<lambda>x. if bet_id x = b then x\<lparr>status := st\<rparr> else x) xs)
     = map_option (\<lambda>x. x\<lparr>status := st\<rparr>) (find (\<lambda>x. bet_id x = b) xs)"
  by (induction xs) auto

lemma getStatus_set_status:
  "getStatus b s = Inr st0 \<Longrightarrow> getStatus b (set_status b st s) = Inr st"
  by (auto simp: getStatus_def set_status_def find_set_status split: option.splits)

lemma getStatus_call_ledger [simp]: "getStatus b (call_ledger c s) = getStatus b s"
  by (simp add: getStatus_def call_ledger_def)

lemma getBetEntries_set_status [simp]:
  "getBetEntries b (set_status b' st s) = getBetEntries b s"
  by (simp add: getBetEntries_def set_status_def)

lemma pool_set_status [simp]: "pool b (set_status b' st s) = pool b s"
  by (simp add: pool_def set_status_def)

lemma betEntries_set_status [simp]: "betEntries (set_status b' st s) = betEntries s"
  by (simp add: set_status_def)

lemma ledger_set_status [simp]: "ledger (set_status b' st s) = ledger s"
  by (simp add: set_status_def)

text \<open>The store after a call of \<^verbatim>\<open>end\<close> with an existing option.\<close>

lemma end_bet_state:
  "getBetOption b k s = Some w \<Longrightarrow>
   snd (end_bet b k s) =
     call_ledger (ClearReservations ''bet'')
       (call_ledger (Transactions (map (credit w)
            (map (\<lambda>e. (user e, payout (amount e)
               (foldl (+) 0 (map amount
                  (filter (\<lambda>e. betId e = b \<and> optionId e = opt_id w) (betEntries s))))
               (pool b s)))
             (filter (\<lambda>e. betId e = b \<and> optionId e = opt_id w) (betEntries s)))))
          (call_ledger (Transactions (map debit (getBetEntries b s)))
             (set_status b Ended s)))"
  by (simp add: end_bet_def Let_def)

lemma end_bet_winners:
  "getBetOption b k s = Some w \<Longrightarrow>
   fst (end_bet b k s) =
     Inr (filter (\<lambda>e. betId e = b \<and> optionId e = opt_id w) (betEntries s))"
  by (simp add: end_bet_def Let_def)

text \<open>
  When option identifiers are distinct, as a primary key is, the left join of
  \<^verbatim>\<open>getBetEntries\<close> yields one row for each entry of the bet.
\<close>

lemma filter_opt_id_distinct:
  "distinct (map opt_id xs) \<Longrightarrow> length (filter (\<lambda>opt. opt_id opt = i) xs) \<le> 1"
proof (induction xs)
  case Nil
  then show ?case by simp
next
  case (Cons x xs)
  have "filter (\<lambda>opt. opt_id opt = i) xs = []" if "i \<notin> opt_id ` set xs"
    using that by (auto simp: filter_empty_conv)
  with Cons show ?case by auto
qed

lemma join_one_row:
  assumes "distinct (map opt_id (betOptions s))"
  shows "map (\<lambda>r. (row_user r, row_amount r))
           (let os = filter (\<lambda>opt. opt_id opt = optionId e) (betOptions s)
            in if os = [] then [join_row e None]
               else map (\<lambda>opt. join_row e (Some (name opt))) os) = [(user e, amount e)]"
proof -
  have "length (filter (\<lambda>opt. opt_id opt = optionId e) (betOptions s)) \<le> 1"
    using assms by (rule filter_opt_id_distinct)
  then show ?thesis
    by (cases "filter (\<lambda>opt. opt_id opt = optionId e) (betOptions s)")
       (auto simp: join_row_def Let_def)
qed

lemma getBetEntries_rows:
  assumes "distinct (map opt_id (betOptions s))"
  shows "map (\<lambda>r. (row_user r, row_amount r)) (getBetEntries b s)
           = map (\<lambda>e. (user e, amount e)) (filter (\<lambda>e. betId e = b) (betEntries s))"
proof -
  have "map (\<lambda>r. (row_user r, row_amount r))
          (concat (map (\<lambda>e. let os = filter (\<lambda>opt. opt_id opt = optionId e) (betOptions s)
                       in if os = [] then [join_row e None]
                          else map (\<lambda>opt. join_row e (Some (name opt))) os) es))
        = map (\<lambda>e. (user e, amount e)) es" for es
  proof (induction es)
    case Nil
    then show ?case by simp
  next
    case (Cons e es)
    then show ?case using join_one_row [OF assms, of e] by simp
  qed
  then show ?thesis by (simp add: getBetEntries_def)
qed

lemma debit_fields:
  "(username (debit r), tx_amount (debit r)) = (row_user r, Fin (- of_int (row_amount r)))"
  by (simp add: debit_def num_def)

lemma debit_batch_entries:
  assumes "distinct (map opt_id (betOptions s))"
  shows "map (\<lambda>t. (username t, tx_amount t)) (map debit (getBetEntries b s)) =
         map (\<lambda>e. (user e, Fin (- of_int (amount e))))
           (filter (\<lambda>e. betId e = b) (betEntries s))"
proof -
  have "map (\<lambda>t. (username t, tx_amount t)) (map debit (getBetEntries b s))
      = map (\<lambda>p. (fst p, Fin (- of_int (snd p))))
          (map (\<lambda>r. (row_user r, row_amount r)) (getBetEntries b s))"
    by (simp add: debit_fields comp_def)
  also have "\<dots> = map (\<lambda>e. (user e, Fin (- of_int (amount e))))
                    (filter (\<lambda>e. betId e = b) (betEntries s))"
    by (simp add: getBetEntries_rows [OF assms] comp_def)
  finally show ?thesis .
qed

text \<open>The rows \<^verbatim>\<open>createBet\<close> inserts.\<close>

lemma insert_options_rows:
  "\<exists>rows. betOptions (insert_options xs s) = betOptions s @ rows \<and>
          map (\<lambda>opt. (opt_betId opt, name opt, description opt)) rows = xs"
proof (induction xs arbitrary: s)
  case Nil
  then show ?case by simp
next
  case (Cons x xs)
  obtain b n d where x: "x = (b, n, d)" by (cases x)
  define s1 where "s1 = s\<lparr>betOptions := betOptions s @
            [\<lparr>opt_id = next_option_id s, opt_betId = b, name = n, description = d\<rparr>],
          next_option_id := Suc (next_option_id s)\<rparr>"
  from Cons [of s1] obtain rows where
    r: "betOptions (insert_options xs s1) = betOptions s1 @ rows"
       "map (\<lambda>opt. (opt_betId opt, name opt, description opt)) rows = xs"
    by (elim exE conjE)
  define rows' where
    "rows' = \<lparr>opt_id = next_option_id s, opt_betId = b, name = n, description = d\<rparr> # rows"
  have "betOptions (insert_options (x # xs) s) = betOptions s @ rows'"
    using r(1) by (simp add: x s1_def rows'_def)
  moreover have "map (\<lambda>opt. (opt_betId opt, name opt, description opt)) rows' = x # xs"
    using r(2) by (simp add: x rows'_def)
  ultimately show ?case by (intro exI [of _ rows'] conjI)
qed

lemma bets_insert_options [simp]: "bets (insert_options xs s) = bets s"
  by (induction xs s rule: insert_options.induct) auto

section \<open>Payouts: claims C1, C2 and C7\<close>

text \<open>
  C1. The claim: the debits issued by \<^verbatim>\<open>end\<close> sum to the pool, and with at least one
  winning entry the credits sum to at least the pool and to less than the pool plus the
  number of winning entries. The code departs from the upper bound. With stakes 3, 6 and
  25 on the winning option and 136 on the other one the pool is 170 and each exact share
  (15, 30 and 125) is an integer, but the quotient \<^verbatim>\<open>entry.amount / winningBets\<close> is
  rounded before it is multiplied, each product lands just above the integer, and
  \<^verbatim>\<open>Math.ceil\<close> adds a whole florin: the credits are 16, 31 and 126 and sum to
  173, the pool plus the number of winners.
\<close>

theorem end_credit_surplus_reaches_winner_count:
  "pool 1 three_winners = Some 170 \<and>
   map_sum id length (fst (end_bet 1 ''a'' three_winners)) = Inr 3 \<and>
   map (map tx_amount)
       (batches (issued three_winners (snd (end_bet 1 ''a'' three_winners))))
     = [[Fin (- 3), Fin (- 6), Fin (- 25), Fin (- 136)], [Fin 16, Fin 31, Fin 126]] \<and>
   fin_sum [Fin 16, Fin 31, Fin 126] = Some (170 + 3)"
  by code_simp

text \<open>
  The part of C1 about debits holds whenever the bet has an entry: with distinct option
  identifiers the debited stakes sum to the pool. Over no entries the batch is empty and
  \<^verbatim>\<open>pool()\<close> is \<^verbatim>\<open>null\<close>.
\<close>

lemma fin_sum_Fin: "fin_sum (map (\<lambda>e. Fin (f e)) es) = Some (sum_list (map f es))"
  by (induction es) auto

lemma debits_sum_to_pool:
  assumes "distinct (map opt_id (betOptions s))" and "pool b s = Some p"
  shows "fin_sum (map tx_amount (map debit (getBetEntries b s))) = Some (- of_int p)"
proof -
  let ?es = "filter (\<lambda>e. betId e = b) (betEntries s)"
  have e: "map (\<lambda>t. (username t, tx_amount t)) (map debit (getBetEntries b s))
      = map (\<lambda>e. (user e, Fin (- of_int (amount e)))) ?es"
    by (rule debit_batch_entries [OF assms(1)])
  have "map tx_amount (map debit (getBetEntries b s))
      = map snd (map (\<lambda>t. (username t, tx_amount t)) (map debit (getBetEntries b s)))"
    by (simp add: comp_def)
  also have "\<dots> = map snd (map (\<lambda>e. (user e, Fin (- of_int (amount e)))) ?es)"
    by (simp only: e)
  also have "\<dots> = map (\<lambda>e. Fin (- of_int (amount e))) ?es"
    by (simp add: comp_def)
  finally have "fin_sum (map tx_amount (map debit (getBetEntries b s)))
      = Some (sum_list (map (\<lambda>e. - of_int (amount e)) ?es))"
    by (simp add: fin_sum_Fin)
  moreover have "sum_list (map (\<lambda>e. - of_int (amount e)) es)
      = - (of_int (sum_list (map amount es)) :: rat)" for es :: "betEntry list"
    by (induction es) auto
  moreover from assms(2) have "p = sum_list (map amount ?es)"
    by (auto simp: pool_def sum_amount_def split: if_splits)
  ultimately show ?thesis by simp
qed

lemma no_entries_no_debits:
  assumes "pool b s = None"
  shows "getBetEntries b s = []"
proof -
  from assms have "filter (\<lambda>e. betId e = b) (betEntries s) = []"
    by (simp add: pool_def sum_amount_def split: if_splits)
  then show ?thesis by (simp add: getBetEntries_def)
qed

text \<open>
  C2. The claim: each winning entry is credited exactly the ceiling of
  \<open>amount / winningTotal * pool\<close>, and in the scenario with alice, bob and carol the
  payouts are 234 and 117. The code departs from the general statement: with stakes 7 and
  93 on the winning option the pool and the winning total are both 100, the ceiling of
  \<open>7 / 100 * 100\<close> is 7, and the code credits 8, because \<^verbatim>\<open>7 / 100 * 100\<close> evaluates
  to \<^verbatim>\<open>7.000000000000001\<close>.
\<close>

theorem end_credit_exceeds_exact_share:
  "pool 1 seven_of_hundred = Some 100 \<and>
   map (map (\<lambda>t. (username t, tx_amount t)))
       (batches (issued seven_of_hundred (snd (end_bet 1 ''a'' seven_of_hundred))))
     = [[(''alice'', Fin (- 7)), (''bob'', Fin (- 93))],
        [(''alice'', Fin 8), (''bob'', Fin 93)]] \<and>
   \<lceil>(7 :: rat) / 100 * 100\<rceil> = 7"
  by code_simp

text \<open>The scenario of C2 comes out as the claim says.\<close>

lemma end_alice_bob_carol:
  "pool 1 alice_bob_carol = Some 350 \<and>
   map_sum id (map user) (fst (end_bet 1 ''a'' alice_bob_carol)) = Inr [''alice'', ''carol''] \<and>
   map (map (\<lambda>t. (username t, tx_amount t)))
       (batches (issued alice_bob_carol (snd (end_bet 1 ''a'' alice_bob_carol))))
     = [[(''alice'', Fin (- 100)), (''bob'', Fin (- 200)), (''carol'', Fin (- 50))],
        [(''alice'', Fin 234), (''carol'', Fin 117)]] \<and>
   fin_sum [Fin (- 100), Fin (- 200), Fin (- 50)] = Some (- 350) \<and>
   fin_sum [Fin 234, Fin 117] = Some 351"
  by code_simp

text \<open>
  C7. The claim: when the stakes on the winning option sum to 0, \<^verbatim>\<open>end\<close> issues the
  debit batch and no credits, and a winning option without entries gives no winners. The
  code departs from the first part: an entry with stake 0 on the winning option is a
  winner, its payout is \<^verbatim>\<open>Math.ceil(0 / 0 * total)\<close>, and the credit batch holds a
  transaction of amount \<open>NaN\<close> for it.
\<close>

theorem end_zero_stake_credits_nan:
  "foldl (+) 0 (map amount
     (filter (\<lambda>e. betId e = 1 \<and> optionId e = 1) (betEntries zero_stake))) = 0 \<and>
   map (map (\<lambda>t. (username t, tx_amount t)))
       (batches (issued zero_stake (snd (end_bet 1 ''a'' zero_stake))))
     = [[(''zed'', Fin 0), (''bob'', Fin (- 5))], [(''zed'', NaN)]]"
  by code_simp

text \<open>
  The second part of C7 holds: without an entry on the winning option there are no
  winners, and the credit batch is empty.
\<close>

lemma end_without_winning_entries:
  assumes "getBetOption b k s = Some w"
    and "filter (\<lambda>e. betId e = b \<and> optionId e = opt_id w) (betEntries s) = []"
  shows "fst (end_bet b k s) = Inr [] \<and>
         issued s (snd (end_bet b k s)) =
           [Transactions (map debit (getBetEntries b s)), Transactions [],
            ClearReservations ''bet'']"
  using assms by (simp add: end_bet_winners end_bet_state issued_def call_ledger_def)

section \<open>Entering a bet: claims C3 and C4\<close>

text \<open>
  C3, as amended. The claim: \<^verbatim>\<open>enter\<close> fails with InvalidState whenever the status
  is not open, with UnknownOption whenever the key matches no option of the bet, and with
  InvalidAmount whenever the amount is negative, and a failed call changes nothing. The
  three checks run in this order and the first that fails decides the error, so the
  second and third hold under the earlier checks: a bet that is not open is rejected with
  \<open>BetNotOpen\<close>; an open bet with a key that matches no option of the bet, whatever the
  case of the letters, is rejected with \<open>OptionDoesNotExist\<close>; an open bet with a known
  option and a negative amount is rejected with \<open>NegativeBet\<close>. In each case the state
  returned is the state given: no ledger call is recorded and no entry is touched.
\<close>

theorem enter_rejections:
  "(getStatus b s = Inr st \<and> st \<noteq> Open \<longrightarrow> enter b usr k n s = (Inl (BetNotOpen st), s)) \<and>
   (getStatus b s = Inr Open \<and>
      (\<forall>opt \<in> set (betOptions s).
         opt_betId opt = b \<longrightarrow> toLowerCase (name opt) \<noteq> toLowerCase k)
    \<longrightarrow> enter b usr k n s = (Inl (OptionDoesNotExist k), s)) \<and>
   (getStatus b s = Inr Open \<and> getBetOption b k s \<noteq> None \<and> n < 0
    \<longrightarrow> enter b usr k n s = (Inl NegativeBet, s))"
proof (intro conjI impI)
  assume "getStatus b s = Inr st \<and> st \<noteq> Open"
  then show "enter b usr k n s = (Inl (BetNotOpen st), s)"
    by (simp add: enter_def)
next
  assume h: "getStatus b s = Inr Open \<and>
      (\<forall>opt \<in> set (betOptions s).
         opt_betId opt = b \<longrightarrow> toLowerCase (name opt) \<noteq> toLowerCase k)"
  then have "getBetOption b k s = None" by (simp add: getBetOption_no_match)
  with h show "enter b usr k n s = (Inl (OptionDoesNotExist k), s)"
    by (simp add: enter_def)
next
  assume "getStatus b s = Inr Open \<and> getBetOption b k s \<noteq> None \<and> n < 0"
  then show "enter b usr k n s = (Inl NegativeBet, s)"
    by (auto simp: enter_def split: option.splits)
qed

text \<open>The three rejections on the bet with options a and b.\<close>

theorem enter_rejections_witness:
  "enter 1 ''alice'' ''a'' 5 (close 1 cats_dogs) = (Inl (BetNotOpen Closed), close 1 cats_dogs) \<and>
   enter 1 ''alice'' ''z'' 5 cats_dogs = (Inl (OptionDoesNotExist ''z''), cats_dogs) \<and>
   enter 1 ''alice'' ''a'' (- 5) cats_dogs = (Inl NegativeBet, cats_dogs)"
proof (intro conjI)
  have "getStatus 1 (close 1 cats_dogs) = Inr Closed \<and> Closed \<noteq> Open"
    by code_simp
  then show "enter 1 ''alice'' ''a'' 5 (close 1 cats_dogs)
               = (Inl (BetNotOpen Closed), close 1 cats_dogs)"
    by (rule enter_rejections [THEN conjunct1, THEN mp])
next
  have "getStatus 1 cats_dogs = Inr Open \<and>
        (\<forall>opt \<in> set (betOptions cats_dogs).
           opt_betId opt = 1 \<longrightarrow> toLowerCase (name opt) \<noteq> toLowerCase ''z'')"
    by code_simp
  then show "enter 1 ''alice'' ''z'' 5 cats_dogs = (Inl (OptionDoesNotExist ''z''), cats_dogs)"
    by (rule enter_rejections [THEN conjunct2, THEN conjunct1, THEN mp])
next
  have "getStatus 1 cats_dogs = Inr Open \<and> getBetOption 1 ''a'' cats_dogs \<noteq> None \<and>
        (- 5 :: int) < 0"
    by code_simp
  then show "enter 1 ''alice'' ''a'' (- 5) cats_dogs = (Inl NegativeBet, cats_dogs)"
    by (rule enter_rejections [THEN conjunct2, THEN conjunct2, THEN mp])
qed

text \<open>
  C3 as stated fails on a closed bet and a key that matches no option: the call is
  rejected because of the status, not because of the option.
\<close>

theorem enter_closed_bet_unknown_option:
  "getStatus 1 (close 1 cats_dogs) = Inr Closed \<and>
   getBetOption 1 ''z'' (close 1 cats_dogs) = None \<and>
   fst (enter 1 ''alice'' ''z'' 5 (close 1 cats_dogs)) = Inl (BetNotOpen Closed) \<and>
   fst (enter 1 ''alice'' ''z'' 5 (close 1 cats_dogs)) \<noteq> Inl (OptionDoesNotExist ''z'')"
  by code_simp

lemma find_Some_holds: "find P xs = Some x \<Longrightarrow> x \<in> set xs \<and> P x"
  by (induction xs) (auto split: if_splits)

lemma getBetOption_Some:
  assumes "getBetOption b k s = Some opt"
  shows "opt \<in> set (betOptions s)" and "opt_betId opt = b" and "name opt = toLowerCase k"
  using find_Some_holds [OF assms [unfolded getBetOption_def]] by simp_all

lemma enter_success_state:
  assumes "enter b usr k n s = (Inr r, s')"
  obtains opt where "getBetOption b k s = Some opt" and "getStatus b s = Inr Open" and "0 \<le> n"
    and "s' = snd (insert_entry b (opt_id opt) (toLowerCase usr) n
                 (delete_entries b usr
                    (call_ledger (Reserve usr ''bet'' n)
                       (call_ledger (Unreserve usr ''bet'') s))))"
  using assms
  by (auto simp: enter_def Let_def split: sum.splits option.splits if_splits prod.splits)

lemma filter_user_lower:
  assumes "\<forall>e \<in> set es. user e = toLowerCase (user e)"
  shows "filter (\<lambda>e. betId e = b \<and> toLowerCase (user e) = u)
           (filter (\<lambda>e. \<not> (betId e = b \<and> user e = u)) es) = []"
  using assms by (induction es) auto

text \<open>
  C4. After a successful \<^verbatim>\<open>enter(user, optionName, florins)\<close>, from any state of
  the store (so also when the user already has an entry), the bet has exactly one entry
  of that user, and it carries the option and the amount of this call: the option is a
  row of \<open>betOptions\<close> of this bet whose name is the key of the call in lower case, and
  the entries counted are those whose user equals the user of the call up to the case of
  the letters. Users are stored in lower case: \<^verbatim>\<open>enter\<close> is the only operation that
  inserts an entry, it stores the user in lower case, and it keeps that property of the
  store, which the statement assumes of the state before the call.
\<close>

theorem enter_single_entry:
  assumes "enter b usr k n s = (Inr r, s')"
    and "\<forall>e \<in> set (betEntries s). user e = toLowerCase (user e)"
  shows "\<exists>opt. opt \<in> set (betOptions s) \<and> opt_betId opt = b \<and> name opt = toLowerCase k \<and>
           getBetOption b k s = Some opt \<and>
           filter (\<lambda>e. betId e = b \<and> toLowerCase (user e) = toLowerCase usr) (betEntries s')
             = [\<lparr>entry_id = next_entry_id s, betId = b, optionId = opt_id opt,
                 user = toLowerCase usr, amount = n\<rparr>] \<and>
           (\<forall>e \<in> set (betEntries s'). user e = toLowerCase (user e))"
proof -
  from assms(1) obtain opt where o: "getBetOption b k s = Some opt"
    and s': "s' = snd (insert_entry b (opt_id opt) (toLowerCase usr) n
                 (delete_entries b usr
                    (call_ledger (Reserve usr ''bet'' n)
                       (call_ledger (Unreserve usr ''bet'') s))))"
    by (rule enter_success_state)
  define new where "new = \<lparr>entry_id = next_entry_id s, betId = b, optionId = opt_id opt,
                 user = toLowerCase usr, amount = n\<rparr>"
  have es: "betEntries s' =
      filter (\<lambda>e. \<not> (betId e = b \<and> user e = toLowerCase usr)) (betEntries s) @ [new]"
    by (simp add: s' insert_entry_def delete_entries_def call_ledger_def new_def)
  have "filter (\<lambda>e. betId e = b \<and> toLowerCase (user e) = toLowerCase usr) [new] = [new]"
    by (simp add: new_def toLowerCase_idem)
  then have 1: "filter (\<lambda>e. betId e = b \<and> toLowerCase (user e) = toLowerCase usr) (betEntries s')
             = [new]"
    by (simp only: es filter_append filter_user_lower [OF assms(2)] append_Nil)
  have 2: "\<forall>e \<in> set (betEntries s'). user e = toLowerCase (user e)"
    using assms(2) by (auto simp: es new_def toLowerCase_idem)
  from getBetOption_Some [OF o] o 1 2 show ?thesis
    unfolding new_def by (intro exI [of _ opt] conjI)
qed

text \<open>
  A second call by the same user, spelt \<^verbatim>\<open>Alice\<close> and with the key \<^verbatim>\<open>B\<close>,
  replaces the entry of \<^verbatim>\<open>alice\<close> on option a by one on option b.
\<close>

theorem enter_single_entry_witness:
  "map (\<lambda>opt. (opt_id opt, opt_betId opt, name opt)) (betOptions alice_twice)
     = [(1, 1, ''a''), (2, 1, ''b'')] \<and>
   betEntries alice_twice
     = [\<lparr>entry_id = 1, betId = 1, optionId = 1, user = ''alice'', amount = 10\<rparr>] \<and>
   filter (\<lambda>e. betId e = 1 \<and> toLowerCase (user e) = ''alice'')
      (betEntries (snd (enter 1 ''Alice'' ''B'' 30 alice_twice)))
     = [\<lparr>entry_id = 2, betId = 1, optionId = 2, user = ''alice'', amount = 30\<rparr>]"
proof -
  have opts: "betOptions alice_twice =
      [\<lparr>opt_id = 1, opt_betId = 1, name = ''a'', description = ''Cats''\<rparr>,
       \<lparr>opt_id = 2, opt_betId = 1, name = ''b'', description = ''Dogs''\<rparr>]"
    by code_simp
  have ents: "betEntries alice_twice
     = [\<lparr>entry_id = 1, betId = 1, optionId = 1, user = ''alice'', amount = 10\<rparr>]"
    by code_simp
  have nxt: "next_entry_id alice_twice = 2" by code_simp
  have low: "toLowerCase ''Alice'' = ''alice''" "toLowerCase ''B'' = ''b''"
    "toLowerCase ''alice'' = ''alice''"
    by code_simp+
  have "fst (enter 1 ''Alice'' ''B'' 30 alice_twice)
          = Inr (Some \<lparr>entry_id = 2, betId = 1, optionId = 2, user = ''alice'', amount = 30\<rparr>)"
    by code_simp
  then have h1: "enter 1 ''Alice'' ''B'' 30 alice_twice
          = (Inr (Some \<lparr>entry_id = 2, betId = 1, optionId = 2, user = ''alice'', amount = 30\<rparr>),
             snd (enter 1 ''Alice'' ''B'' 30 alice_twice))"
    by (simp add: prod_eq_iff)
  have h2: "\<forall>e \<in> set (betEntries alice_twice). user e = toLowerCase (user e)"
    by (simp add: ents low)
  from enter_single_entry [OF h1 h2] obtain opt where
    o: "opt \<in> set (betOptions alice_twice)" "name opt = toLowerCase ''B''"
    and f: "filter (\<lambda>e. betId e = 1 \<and> toLowerCase (user e) = toLowerCase ''Alice'')
              (betEntries (snd (enter 1 ''Alice'' ''B'' 30 alice_twice)))
            = [\<lparr>entry_id = next_entry_id alice_twice, betId = 1, optionId = opt_id opt,
                user = toLowerCase ''Alice'', amount = 30\<rparr>]"
    by (elim exE conjE)
  from o have "opt_id opt = 2" by (auto simp: opts low)
  with f have "filter (\<lambda>e. betId e = 1 \<and> toLowerCase (user e) = ''alice'')
      (betEntries (snd (enter 1 ''Alice'' ''B'' 30 alice_twice)))
     = [\<lparr>entry_id = 2, betId = 1, optionId = 2, user = ''alice'', amount = 30\<rparr>]"
    by (simp only: low nxt)
  moreover have "map (\<lambda>opt. (opt_id opt, opt_betId opt, name opt)) (betOptions alice_twice)
     = [(1, 1, ''a''), (2, 1, ''b'')]"
    by (simp add: opts)
  ultimately show ?thesis using ents by (intro conjI)
qed


text \<open>
  No other operation adds an entry, so the users of the entries stay in lower case in
  every store reached from an empty one.
\<close>

lemma betEntries_insert_options [simp]: "betEntries (insert_options xs s) = betEntries s"
  by (induction xs s rule: insert_options.induct) auto

lemma entries_kept_by_other_operations:
  "betEntries (close b s) = betEntries s"
  "betEntries (snd (end_bet b k s)) = betEntries s"
  "betEntries (snd (createBet options s)) = betEntries s"
  "set (betEntries (snd (clear b usr s))) \<subseteq> set (betEntries s)"
proof -
  show "betEntries (close b s) = betEntries s" by (simp add: close_def)
  show "betEntries (snd (end_bet b k s)) = betEntries s"
  proof (cases "getBetOption b k s")
    case None
    then show ?thesis by (simp add: end_bet_def)
  next
    case (Some w)
    then show ?thesis by (simp add: end_bet_state call_ledger_def)
  qed
  show "betEntries (snd (createBet options s)) = betEntries s"
    by (simp add: createBet_def Let_def)
  show "set (betEntries (snd (clear b usr s))) \<subseteq> set (betEntries s)"
    by (auto simp: clear_def delete_entries_def split: sum.splits)
qed


lemma enter_twice_example:
  "betEntries (snd (enter 1 ''Alice'' ''b'' 30 alice_twice))
     = [\<lparr>entry_id = 2, betId = 1, optionId = 2, user = ''alice'', amount = 30\<rparr>]"
  by code_simp

section \<open>The status of a bet: claims C5 and C10\<close>

lemma getStatus_bets: "bets s' = bets s \<Longrightarrow> getStatus b s' = getStatus b s"
  by (simp add: getStatus_def)

lemma bets_enter: "bets (snd (enter b usr k n s)) = bets s"
  by (simp add: enter_def Let_def insert_entry_def delete_entries_def call_ledger_def
      split: sum.splits option.splits)

lemma bets_clear: "bets (snd (clear b usr s)) = bets s"
  by (simp add: clear_def delete_entries_def split: sum.splits)

lemma bets_call_ledger [simp]: "bets (call_ledger c s) = bets s"
  by (simp add: call_ledger_def)

text \<open>
  C5, as amended. The claim: the status moves along open, closed, ended only;
  \<^verbatim>\<open>close\<close> takes an open bet to closed, and no operation of the manager changes the
  status of an ended bet. All of it holds but for \<^verbatim>\<open>close\<close> on an ended bet.
  \<^verbatim>\<open>enter\<close> and \<^verbatim>\<open>clear\<close> never change the status of any bet, whether they
  succeed or fail: they leave the \<open>bets\<close> relation as it is. \<^verbatim>\<open>end\<close> changes
  nothing when the key names no option, and otherwise sets the status to ended, whatever
  it was. \<^verbatim>\<open>close\<close> checks no status: it sets the status to closed whatever it was,
  so it takes an open bet to closed and also an ended bet back to closed. On an ended bet
  \<^verbatim>\<open>enter\<close> and \<^verbatim>\<open>clear\<close> fail without touching the store and \<^verbatim>\<open>end\<close>
  leaves the status ended.
\<close>

theorem status_after_operations:
  "(getStatus b s = Inr st \<longrightarrow> getStatus b (close b s) = Inr Closed) \<and>
   bets (snd (enter b usr k n s)) = bets s \<and>
   getStatus b (snd (enter b usr k n s)) = getStatus b s \<and>
   bets (snd (clear b usr s)) = bets s \<and>
   getStatus b (snd (clear b usr s)) = getStatus b s \<and>
   (getBetOption b k s = None \<longrightarrow> snd (end_bet b k s) = s) \<and>
   (getStatus b s = Inr st \<and> getBetOption b k s \<noteq> None \<longrightarrow>
      getStatus b (snd (end_bet b k s)) = Inr Ended) \<and>
   (getStatus b s = Inr Ended \<longrightarrow>
      enter b usr k n s = (Inl (BetNotOpen Ended), s) \<and>
      clear b usr s = (Inl NoBetsOpen, s) \<and>
      getStatus b (snd (end_bet b k s)) = Inr Ended)"
proof (intro conjI impI)
  assume "getStatus b s = Inr st"
  then show "getStatus b (close b s) = Inr Closed"
    by (simp add: close_def getStatus_set_status)
next
  show "bets (snd (enter b usr k n s)) = bets s" by (rule bets_enter)
next
  show "getStatus b (snd (enter b usr k n s)) = getStatus b s"
    by (rule getStatus_bets) (rule bets_enter)
next
  show "bets (snd (clear b usr s)) = bets s" by (rule bets_clear)
next
  show "getStatus b (snd (clear b usr s)) = getStatus b s"
    by (rule getStatus_bets) (rule bets_clear)
next
  assume "getBetOption b k s = None"
  then show "snd (end_bet b k s) = s" by (simp add: end_bet_def)
next
  assume "getStatus b s = Inr st \<and> getBetOption b k s \<noteq> None"
  then obtain w where "getStatus b s = Inr st" "getBetOption b k s = Some w" by auto
  then show "getStatus b (snd (end_bet b k s)) = Inr Ended"
    by (simp add: end_bet_state getStatus_set_status)
next
  assume "getStatus b s = Inr Ended"
  then show "enter b usr k n s = (Inl (BetNotOpen Ended), s)"
    by (simp add: enter_def)
next
  assume "getStatus b s = Inr Ended"
  then show "clear b usr s = (Inl NoBetsOpen, s)"
    by (simp add: clear_def)
next
  assume h: "getStatus b s = Inr Ended"
  show "getStatus b (snd (end_bet b k s)) = Inr Ended"
  proof (cases "getBetOption b k s")
    case None
    with h show ?thesis by (simp add: end_bet_def)
  next
    case (Some w)
    with h show ?thesis by (simp add: end_bet_state getStatus_set_status)
  qed
qed

text \<open>
  The transitions on the bet with options a and b: closing it, ending it with an unknown
  key, ending it when closed, and the operations on it when ended.
\<close>

theorem status_after_operations_witness:
  "getStatus 1 (close 1 cats_dogs) = Inr Closed \<and>
   snd (end_bet 1 ''z'' cats_dogs) = cats_dogs \<and>
   getStatus 1 (snd (end_bet 1 ''a'' (close 1 cats_dogs))) = Inr Ended \<and>
   enter 1 ''dave'' ''a'' 5 ended_bet = (Inl (BetNotOpen Ended), ended_bet) \<and>
   clear 1 ''dave'' ended_bet = (Inl NoBetsOpen, ended_bet) \<and>
   getStatus 1 (snd (end_bet 1 ''a'' ended_bet)) = Inr Ended"
proof -
  have o: "getStatus 1 cats_dogs = Inr Open" by code_simp
  have z: "getBetOption 1 ''z'' cats_dogs = None" by code_simp
  have c: "getStatus 1 (close 1 cats_dogs) = Inr Closed \<and>
           getBetOption 1 ''a'' (close 1 cats_dogs) \<noteq> None"
    by code_simp
  have e: "getStatus 1 ended_bet = Inr Ended" by code_simp
  note t = status_after_operations
  have "getStatus 1 (close 1 cats_dogs) = Inr Closed"
    using o by (rule t [THEN conjunct1, THEN mp])
  moreover have "snd (end_bet 1 ''z'' cats_dogs) = cats_dogs"
    using z
    by (rule t [THEN conjunct2, THEN conjunct2, THEN conjunct2, THEN conjunct2,
          THEN conjunct2, THEN conjunct1, THEN mp])
  moreover have "getStatus 1 (snd (end_bet 1 ''a'' (close 1 cats_dogs))) = Inr Ended"
    using c
    by (rule t [THEN conjunct2, THEN conjunct2, THEN conjunct2, THEN conjunct2,
          THEN conjunct2, THEN conjunct2, THEN conjunct1, THEN mp])
  moreover have "enter 1 ''dave'' ''a'' 5 ended_bet = (Inl (BetNotOpen Ended), ended_bet) \<and>
      clear 1 ''dave'' ended_bet = (Inl NoBetsOpen, ended_bet) \<and>
      getStatus 1 (snd (end_bet 1 ''a'' ended_bet)) = Inr Ended"
    using e
    by (rule t [THEN conjunct2, THEN conjunct2, THEN conjunct2, THEN conjunct2,
          THEN conjunct2, THEN conjunct2, THEN conjunct2, THEN mp])
  ultimately show ?thesis by (intro conjI) (elim conjE, assumption)+
qed


text \<open>C5 as stated fails: \<^verbatim>\<open>close\<close> on an ended bet makes it closed.\<close>

theorem close_after_end_reopens:
  "getStatus 1 ended_bet = Inr Ended \<and> getStatus 1 (close 1 ended_bet) = Inr Closed"
  by code_simp

text \<open>
  C10. \<^verbatim>\<open>end\<close> checks no status. On a bet that is already ended, with the key of an
  existing option, it returns the winning entries instead of failing, and it issues to the
  ledger, after what was recorded before, the debit batch over the rows of
  \<^verbatim>\<open>getBetEntries\<close>, a credit batch with one transaction for each winning entry, and
  the release of the reservations. With distinct option identifiers the debit batch holds
  one debit of the stake for each stored entry of the bet.
\<close>

theorem end_on_ended_bet:
  assumes "getStatus b s = Inr Ended" and "getBetOption b k s = Some w"
  shows "fst (end_bet b k s) =
           Inr (filter (\<lambda>e. betId e = b \<and> optionId e = opt_id w) (betEntries s)) \<and>
         (\<exists>credits. ledger (snd (end_bet b k s)) =
             ledger s @ [Transactions (map debit (getBetEntries b s)), Transactions credits,
                         ClearReservations ''bet''] \<and>
           map username credits =
             map user (filter (\<lambda>e. betId e = b \<and> optionId e = opt_id w) (betEntries s))) \<and>
         (distinct (map opt_id (betOptions s)) \<longrightarrow>
            map (\<lambda>t. (username t, tx_amount t)) (map debit (getBetEntries b s)) =
            map (\<lambda>e. (user e, Fin (- of_int (amount e))))
              (filter (\<lambda>e. betId e = b) (betEntries s)))"
proof (intro conjI impI)
  show "fst (end_bet b k s) =
          Inr (filter (\<lambda>e. betId e = b \<and> optionId e = opt_id w) (betEntries s))"
    using assms(2) by (rule end_bet_winners)
next
  show "\<exists>credits. ledger (snd (end_bet b k s)) =
             ledger s @ [Transactions (map debit (getBetEntries b s)), Transactions credits,
                         ClearReservations ''bet''] \<and>
           map username credits =
             map user (filter (\<lambda>e. betId e = b \<and> optionId e = opt_id w) (betEntries s))"
    using assms(2)
    by (simp add: end_bet_state call_ledger_def credit_def comp_def)
next
  assume "distinct (map opt_id (betOptions s))"
  then show "map (\<lambda>t. (username t, tx_amount t)) (map debit (getBetEntries b s)) =
            map (\<lambda>e. (user e, Fin (- of_int (amount e))))
              (filter (\<lambda>e. betId e = b) (betEntries s))"
    by (rule debit_batch_entries)
qed

text \<open>Ending the bet of alice, bob and carol a second time.\<close>

theorem end_on_ended_bet_witness:
  "fst (end_bet 1 ''a'' ended_bet) =
     Inr (filter (\<lambda>e. betId e = 1 \<and> optionId e = 1) (betEntries ended_bet)) \<and>
   map (\<lambda>t. (username t, tx_amount t)) (map debit (getBetEntries 1 ended_bet)) =
     [(''alice'', Fin (- 100)), (''bob'', Fin (- 200)), (''carol'', Fin (- 50))] \<and>
   length (ledger (snd (end_bet 1 ''a'' ended_bet))) = length (ledger ended_bet) + 3"
proof -
  have e: "getStatus 1 ended_bet = Inr Ended" by code_simp
  have w: "getBetOption 1 ''a'' ended_bet
             = Some \<lparr>opt_id = 1, opt_betId = 1, name = ''a'', description = ''Cats''\<rparr>"
    by code_simp
  have d: "distinct (map opt_id (betOptions ended_bet))" by code_simp
  have v: "map (\<lambda>e. (user e, Fin (- of_int (amount e))))
             (filter (\<lambda>e. betId e = 1) (betEntries ended_bet))
           = [(''alice'', Fin (- 100)), (''bob'', Fin (- 200)), (''carol'', Fin (- 50))]"
    by code_simp
  note t = end_on_ended_bet [OF e w]
  from t have 1: "fst (end_bet 1 ''a'' ended_bet) =
     Inr (filter (\<lambda>e. betId e = 1 \<and> optionId e = 1) (betEntries ended_bet))"
    by simp
  from t d v have 2: "map (\<lambda>t. (username t, tx_amount t)) (map debit (getBetEntries 1 ended_bet)) =
     [(''alice'', Fin (- 100)), (''bob'', Fin (- 200)), (''carol'', Fin (- 50))]"
    by simp
  from t obtain credits where "ledger (snd (end_bet 1 ''a'' ended_bet)) =
             ledger ended_bet @ [Transactions (map debit (getBetEntries 1 ended_bet)),
                         Transactions credits, ClearReservations ''bet'']"
    by (elim conjE exE)
  then have 3: "length (ledger (snd (end_bet 1 ''a'' ended_bet))) = length (ledger ended_bet) + 3"
    by simp
  from 1 2 3 show ?thesis by (intro conjI)
qed

lemma end_twice_example:
  "map (map (\<lambda>t. (username t, tx_amount t)))
       (batches (issued ended_bet (snd (end_bet 1 ''a'' ended_bet))))
     = [[(''alice'', Fin (- 100)), (''bob'', Fin (- 200)), (''carol'', Fin (- 50))],
        [(''alice'', Fin 234), (''carol'', Fin 117)]]"
  by code_simp

section \<open>Queries: claim C6\<close>

text \<open>
  C6. The claim: \<^verbatim>\<open>optionValue\<close> and \<^verbatim>\<open>entryValue\<close> return 0, never an error,
  when no entry matches. The code departs from it in \<^verbatim>\<open>entryValue\<close>: without an
  entry of the user the query yields \<^verbatim>\<open>undefined\<close>, and reading \<^verbatim>\<open>value.amount\<close>
  raises a TypeError before \<^verbatim>\<open>|| 0\<close> is reached.
\<close>

theorem entryValue_without_entry_raises:
  "find (\<lambda>e. betId e = 1 \<and> user e = toLowerCase ''bob'') (betEntries cats_dogs) = None \<and>
   entryValue 1 ''bob'' cats_dogs = Inl TypeError"
  by code_simp

text \<open>
  The same for every bet and user; \<^verbatim>\<open>optionValue\<close> does return 0 for an existing
  option without entries, and raises a TypeError for a key that names no option.
\<close>

lemma entryValue_no_entry:
  "find (\<lambda>e. betId e = b \<and> user e = toLowerCase usr) (betEntries s) = None \<Longrightarrow>
   entryValue b usr s = Inl TypeError"
  by (simp add: entryValue_def)

lemma optionValue_no_entries:
  assumes "getBetOption b k s = Some opt"
    and "filter (\<lambda>e. betId e = b \<and> optionId e = opt_id opt) (betEntries s) = []"
  shows "optionValue b k s = Inr 0"
  using assms by (simp add: optionValue_def sum_amount_def or_zero_def)

lemma optionValue_unknown_option:
  "getBetOption b k s = None \<Longrightarrow> optionValue b k s = Inl TypeError"
  by (simp add: optionValue_def)

section \<open>The parser: claim C8\<close>

text \<open>
  C8. The claim: for every input the parser returns the mapping from each key token to
  its trimmed description; \<^verbatim>\<open>"a) Team Red b) Team Blue"\<close> gives
  \<^verbatim>\<open>{a: "Team Red", b: "Team Blue"}\<close>, and an input without key token gives the empty
  mapping. The code departs from the general statement. After each match it moves
  \<^verbatim>\<open>lastIndex\<close> back by the length of the key just matched plus 2, also when the
  match ended at the end of the string; the next search then starts inside the text
  already matched. On \<^verbatim>\<open>"ab) x"\<close> it finds the key \<^verbatim>\<open>b\<close> inside \<^verbatim>\<open>ab\<close>
  and returns a second key that is no key token of the input.
\<close>

theorem parse_two_letter_key: "parse ''ab) x'' = Some [(''ab'', ''x''), (''b'', ''x'')]"
  by code_simp

text \<open>The example of C8 comes out as the claim says.\<close>

lemma parse_team_red_blue:
  "parse ''a) Team Red b) Team Blue'' = Some [(''a'', ''Team Red''), (''b'', ''Team Blue'')]"
  by code_simp

text \<open>
  An input has no key token when no \<^verbatim>\<open>)\<close> in it follows a lower-case letter; the
  parser then returns the empty mapping.
\<close>

lemma takeWhile_holds: "k < length (takeWhile P xs) \<Longrightarrow> P (xs ! k)"
  by (metis nth_mem set_takeWhileD takeWhile_nth)

lemma match_at_None_without_key_token:
  assumes "\<And>j. 0 < j \<Longrightarrow> j < length s \<Longrightarrow> s ! j = CHR '')'' \<Longrightarrow> \<not> is_az (s ! (j - 1))"
  shows "match_at s = None"
  unfolding match_at_def
proof (rule first_some_None)
  fix k
  assume "k \<in> set (greedy_lengths s)"
  then have k: "1 \<le> k" "k \<le> length (takeWhile is_az s)"
    by (auto simp: greedy_lengths_def)
  then have "k - 1 < length (takeWhile is_az s)" by simp
  then have az: "is_az (s ! (k - 1))" by (rule takeWhile_holds)
  have "\<not> nth_is s k (CHR '')'')"
  proof
    assume "nth_is s k (CHR '')'')"
    then have "k < length s" "s ! k = CHR '')''" by (simp_all add: nth_is_def)
    with k(1) assms [of k] az show False by simp
  qed
  then show "(if nth_is s k (CHR '')'')
            then (case lazy_desc [] (drop (Suc k) s) of
                    Some (d, n) \<Rightarrow> Some (take k s, d, k + 1 + length d + n)
                  | None \<Rightarrow> None)
            else None) = None"
    by simp
qed

lemma parse_no_match:
  assumes "\<And>i. i \<le> length str \<Longrightarrow> match_at (drop i str) = None"
  shows "parse str = Some []"
proof -
  have "first_some (\<lambda>i. case match_at (drop i str) of
                       Some (k, d, len) \<Rightarrow> Some (k, d, int (i + len))
                     | None \<Rightarrow> None) [0..<Suc (length str)] = None"
    by (rule first_some_None) (simp add: assms less_Suc_eq_le del: upt_Suc)
  then have "exec str 0 = None"
    by (simp add: exec_def del: upt_Suc)
  then show ?thesis
    by (simp add: parse_def parse_loop.simps)
qed

lemma parse_without_key_token:
  assumes "\<And>j. 0 < j \<Longrightarrow> j < length str \<Longrightarrow> str ! j = CHR '')'' \<Longrightarrow>
             \<not> is_az (str ! (j - 1))"
  shows "parse str = Some []"
proof (rule parse_no_match)
  fix i
  assume i: "i \<le> length str"
  show "match_at (drop i str) = None"
  proof (rule match_at_None_without_key_token)
    fix j
    assume j: "0 < j" "j < length (drop i str)" "drop i str ! j = CHR '')''"
    then have "0 < i + j" "i + j < length str" "str ! (i + j) = CHR '')''"
      using i by simp_all
    then have "\<not> is_az (str ! (i + j - 1))" by (rule assms)
    moreover have "drop i str ! (j - 1) = str ! (i + j - 1)"
      using i j by (simp add: Nat.add_diff_assoc)
    ultimately show "\<not> is_az (drop i str ! (j - 1))" by simp
  qed
qed

text \<open>
  On \<^verbatim>\<open>"a)"\<close> the parser does not return at all: the match ends at index 2,
  \<^verbatim>\<open>lastIndex\<close> becomes -1, and the next search finds the same match again.
\<close>

lemma exec_a_paren:
  "exec ''a)'' 0 = Some (''a'', [], 2)" "exec ''a)'' (- 1) = Some (''a'', [], 2)"
  by code_simp+

lemma parse_loop_a_paren_diverges:
  assumes "parse_loop str li opts = Some y"
  shows "\<not> (str = ''a)'' \<and> (li = 0 \<or> li = - 1))"
proof (rule parse_loop.raw_induct
    [where P = "\<lambda>str li opts y. \<not> (str = ''a)'' \<and> (li = 0 \<or> li = - 1))", OF _ assms])
  fix loop :: "string \<Rightarrow> int \<Rightarrow> (string \<times> string) list \<Rightarrow> (string \<times> string) list option"
    and str li opts y
  assume IH: "\<And>str li opts y. loop str li opts = Some y \<Longrightarrow>
                \<not> (str = ''a)'' \<and> (li = 0 \<or> li = - 1))"
    and eq: "(case exec str li of
                None \<Rightarrow> Some opts
              | Some (k, d, e) \<Rightarrow>
                  loop str (e - (int (length k) + 2))
                    (AList.update (toLowerCase k) (trim d) opts)) = Some y"
  show "\<not> (str = ''a)'' \<and> (li = 0 \<or> li = - 1))"
  proof
    assume h: "str = ''a)'' \<and> (li = 0 \<or> li = - 1)"
    then have "exec str li = Some (''a'', [], 2)"
      using exec_a_paren by auto
    with eq h have "loop ''a)'' (- 1) (AList.update (toLowerCase ''a'') (trim []) opts) = Some y"
      by simp
    from IH [OF this] show False by simp
  qed
qed

lemma parse_a_paren_never_returns: "parse ''a)'' = None"
proof (cases "parse ''a)''")
  case None
  then show ?thesis .
next
  case (Some y)
  then have "parse_loop ''a)'' 0 [] = Some y" by (simp add: parse_def)
  from parse_loop_a_paren_diverges [OF this] show ?thesis by simp
qed

section \<open>Creating a bet: claim C9\<close>

lemma createBet_result:
  "fst (createBet options s) =
     (if options = [] \<and> empty_insert_fails s then Inl StoreError else Inr (next_bet_id s))"
  by (simp add: createBet_def Let_def)

text \<open>
  C9, as amended. The claim: \<^verbatim>\<open>create\<close> inserts one bet with status open and one
  option row for each key with its description, and fails with ConfigError when the
  options map is empty. \<^verbatim>\<open>createBet\<close> always inserts the bet with status open and
  never fails with the ConfigError (\<open>FlorinsMissing\<close>). With an empty options map and a
  store that rejects the empty insert it fails with the error of the store, after the bet
  was inserted and with no option row. In every other case it returns the manager of the
  new bet and appends one option row for each key, in order, with the description stored
  under the key. The \<^verbatim>\<open>!bet open\<close> command fails with the ConfigError when the ledger
  module is missing, and never when it is loaded, whatever the text of the options.
\<close>

theorem createBet_rows:
  "bets (snd (createBet options s)) = bets s @ [\<lparr>bet_id = next_bet_id s, status = Open\<rparr>] \<and>
   fst (createBet options s) \<noteq> Inl FlorinsMissing \<and>
   (options = [] \<and> empty_insert_fails s \<longrightarrow>
      fst (createBet options s) = Inl StoreError \<and>
      betOptions (snd (createBet options s)) = betOptions s) \<and>
   (options \<noteq> [] \<or> \<not> empty_insert_fails s \<longrightarrow>
      fst (createBet options s) = Inr (next_bet_id s) \<and>
      (\<exists>rows. betOptions (snd (createBet options s)) = betOptions s @ rows \<and>
         map (\<lambda>opt. (opt_betId opt, name opt, description opt)) rows =
           map (\<lambda>(n, d). (next_bet_id s, n, d)) options)) \<and>
   (\<not> bot_florins bt \<longrightarrow> bet_open bt trailing s = Some (Inl FlorinsMissing, bt, s)) \<and>
   (bot_florins bt \<longrightarrow>
      (\<forall>bt' s'. bet_open bt trailing s \<noteq> Some (Inl FlorinsMissing, bt', s')))"
proof (intro conjI impI allI)
  show "bets (snd (createBet options s)) = bets s @ [\<lparr>bet_id = next_bet_id s, status = Open\<rparr>]"
    by (simp add: createBet_def Let_def)
next
  show "fst (createBet options s) \<noteq> Inl FlorinsMissing"
    by (simp add: createBet_result)
next
  assume "options = [] \<and> empty_insert_fails s"
  then show "fst (createBet options s) = Inl StoreError"
    by (simp add: createBet_result)
next
  assume "options = [] \<and> empty_insert_fails s"
  then show "betOptions (snd (createBet options s)) = betOptions s"
    by (simp add: createBet_def Let_def)
next
  assume h: "options \<noteq> [] \<or> \<not> empty_insert_fails s"
  then show "fst (createBet options s) = Inr (next_bet_id s)"
    by (auto simp: createBet_result)
next
  assume h: "options \<noteq> [] \<or> \<not> empty_insert_fails s"
  define s1 where "s1 = s\<lparr>bets := bets s @ [\<lparr>bet_id = next_bet_id s, status = Open\<rparr>],
                 next_bet_id := Suc (next_bet_id s)\<rparr>"
  from h have "snd (createBet options s) =
      insert_options (map (\<lambda>(n, d). (next_bet_id s, n, d)) options) s1"
    by (auto simp: createBet_def Let_def s1_def)
  moreover have "betOptions s1 = betOptions s" by (simp add: s1_def)
  moreover obtain rows where
    "betOptions (insert_options (map (\<lambda>(n, d). (next_bet_id s, n, d)) options) s1)
       = betOptions s1 @ rows"
    "map (\<lambda>opt. (opt_betId opt, name opt, description opt)) rows =
       map (\<lambda>(n, d). (next_bet_id s, n, d)) options"
    using insert_options_rows [of "map (\<lambda>(n, d). (next_bet_id s, n, d)) options" s1]
    by (elim exE conjE)
  ultimately have "betOptions (snd (createBet options s)) = betOptions s @ rows \<and>
         map (\<lambda>opt. (opt_betId opt, name opt, description opt)) rows =
           map (\<lambda>(n, d). (next_bet_id s, n, d)) options"
    by simp
  then show "\<exists>rows. betOptions (snd (createBet options s)) = betOptions s @ rows \<and>
         map (\<lambda>opt. (opt_betId opt, name opt, description opt)) rows =
           map (\<lambda>(n, d). (next_bet_id s, n, d)) options"
    by (rule exI)
next
  assume "\<not> bot_florins bt"
  then show "bet_open bt trailing s = Some (Inl FlorinsMissing, bt, s)"
    by (simp add: bet_open_def)
next
  fix bt' s'
  assume f: "bot_florins bt"
  show "bet_open bt trailing s \<noteq> Some (Inl FlorinsMissing, bt', s')"
  proof
    assume a: "bet_open bt trailing s = Some (Inl FlorinsMissing, bt', s')"
    show False
    proof (cases "bot_bet bt")
      case (Some x)
      with a f show False by (simp add: bet_open_def)
    next
      case None
      show False
      proof (cases "parse trailing")
        case None
        with a f \<open>bot_bet bt = None\<close> show False by (simp add: bet_open_def)
      next
        case (Some opts)
        obtain r s1 where c: "createBet opts s = (r, s1)" by (cases "createBet opts s")
        then have "r \<noteq> Inl FlorinsMissing"
          using createBet_result [of opts s] by (auto split: if_splits)
        with a f \<open>bot_bet bt = None\<close> Some c show False
          by (auto simp: bet_open_def split: sum.splits)
      qed
    qed
  qed
qed

text \<open>
  Creating the bet with the options a and b, creating a bet without options, and the
  command without the ledger module, on the store that rejects an empty insert.
\<close>

theorem createBet_rows_witness:
  "fst (createBet [(''a'', ''Cats''), (''b'', ''Dogs'')] store_rejecting) = Inr 1 \<and>
   map (\<lambda>opt. (opt_betId opt, name opt, description opt))
       (betOptions (snd (createBet [(''a'', ''Cats''), (''b'', ''Dogs'')] store_rejecting)))
     = [(1, ''a'', ''Cats''), (1, ''b'', ''Dogs'')] \<and>
   fst (createBet [] store_rejecting) = Inl StoreError \<and>
   betOptions (snd (createBet [] store_rejecting)) = [] \<and>
   bet_open \<lparr>bot_florins = False, bot_bet = None\<rparr> ''a) Cats b) Dogs'' store_rejecting
     = Some (Inl FlorinsMissing, \<lparr>bot_florins = False, bot_bet = None\<rparr>, store_rejecting)"
proof -
  note t = createBet_rows
  have n: "next_bet_id store_rejecting = 1" "betOptions store_rejecting = []"
    "empty_insert_fails store_rejecting"
    by (simp_all add: store_rejecting_def store0_def)
  have h: "[(''a'', ''Cats''), (''b'', ''Dogs'')] \<noteq> [] \<or> \<not> empty_insert_fails store_rejecting"
    by simp
  from t [THEN conjunct2, THEN conjunct2, THEN conjunct2, THEN conjunct1, THEN mp, OF h]
  have 1: "fst (createBet [(''a'', ''Cats''), (''b'', ''Dogs'')] store_rejecting) = Inr 1"
    and 2: "map (\<lambda>opt. (opt_betId opt, name opt, description opt))
       (betOptions (snd (createBet [(''a'', ''Cats''), (''b'', ''Dogs'')] store_rejecting)))
     = [(1, ''a'', ''Cats''), (1, ''b'', ''Dogs'')]"
    by (auto simp: n)
  have e: "([] :: (string \<times> string) list) = [] \<and> empty_insert_fails store_rejecting"
    by (simp add: n)
  from t [THEN conjunct2, THEN conjunct2, THEN conjunct1, THEN mp, OF e]
  have 3: "fst (createBet [] store_rejecting) = Inl StoreError"
    and 4: "betOptions (snd (createBet [] store_rejecting)) = []"
    by (simp_all add: n)
  have f: "\<not> bot_florins \<lparr>bot_florins = False, bot_bet = None\<rparr>" by simp
  from t [THEN conjunct2, THEN conjunct2, THEN conjunct2, THEN conjunct2, THEN conjunct1,
        THEN mp, OF f]
  have 5: "bet_open \<lparr>bot_florins = False, bot_bet = None\<rparr> ''a) Cats b) Dogs'' store_rejecting
     = Some (Inl FlorinsMissing, \<lparr>bot_florins = False, bot_bet = None\<rparr>, store_rejecting)" .
  from 1 2 3 4 5 show ?thesis by (intro conjI)
qed

text \<open>
  C9 as stated fails on the empty options map: no ConfigError is raised. The bet is
  inserted with status open, the store rejects the empty insert of option rows, and the
  command \<^verbatim>\<open>!bet open no options here\<close> fails with the error of the store and leaves
  the open bet behind.
\<close>

theorem createBet_empty_options:
  "fst (createBet [] store_rejecting) = Inl StoreError \<and>
   fst (createBet [] store_rejecting) \<noteq> Inl FlorinsMissing \<and>
   bets (snd (createBet [] store_rejecting)) = [\<lparr>bet_id = 1, status = Open\<rparr>] \<and>
   parse ''no options here'' = Some [] \<and>
   bet_open \<lparr>bot_florins = True, bot_bet = None\<rparr> ''no options here'' store_rejecting
     = Some (Inl StoreError, \<lparr>bot_florins = True, bot_bet = None\<rparr>,
             snd (createBet [] store_rejecting))"
  by code_simp

end
